theory Spec2Isabelle
  imports Complex_Main "HOL-Library.Word"
begin

unbundle bit_operations_syntax

section \<open>Data model\<close>

text \<open>
  The module \<^verbatim>\<open>PointCombine.c\<close> holds four kernels behind five Python entry points.
  Integer buffers keep their C width: \<^verbatim>\<open>npy_int64\<close> is a 64-bit word read as two's
  complement, a C \<^verbatim>\<open>int\<close> a 32-bit word; their arithmetic wraps around.
  An \<^verbatim>\<open>npy_float64\<close> value is the real number it stands for; infinities and NaN are
  not modelled.  Sums and interpolated values are taken in exact arithmetic.  The cell
  geometry of \<^verbatim>\<open>DataCubeGeneric\<close> decides which cells are written, so there every
  operation is rounded as IEEE 754 binary64 arithmetic rounds it (\<open>binary64\<close> below).
  Array lengths and loop counters over array positions are natural numbers (the
  truncation of a length beyond \<open>2^31\<close> to \<^verbatim>\<open>int\<close> is not modelled).  Distinct
  arguments are distinct buffers: no two of them alias.
\<close>

type_synonym npy_int64 = "64 word"
type_synonym c_int = "32 word"
type_synonym npy_float64 = real

text \<open>
  Rounding to binary64, to nearest with ties to even: \<open>binade\<close> finds the exponent
  \<open>e\<close> with \<open>2^e \<le> x < 2^(e+1)\<close> of a positive number (its first argument bounds
  the search; 1100 steps reach every binary64 exponent), the unit in the last place is
  \<open>2^(e-52)\<close>, not below \<open>2^-1074\<close>, and the number is rounded to a multiple of
  it.  Overflow to infinity is not modelled.
\<close>

definition round_even :: "real \<Rightarrow> int" where
  "round_even y =
     (let f = \<lfloor>y\<rfloor>
      in if y - of_int f < 1 / 2 then f
         else if 1 / 2 < y - of_int f then f + 1
         else if even f then f else f + 1)"

fun binade :: "nat \<Rightarrow> real \<Rightarrow> int" where
  "binade 0 x = 0"
| "binade (Suc n) x =
     (if 2 \<le> x then binade n (x / 2) + 1
      else if x < 1 then binade n (x * 2) - 1
      else 0)"

definition binary64 :: "real \<Rightarrow> real" where
  "binary64 x =
     (if x = 0 then 0
      else
        (let e = max (binade 1100 \<bar>x\<bar> - 52) (- 1074);
             ulp = (if 0 \<le> e then 2 ^ nat e else 1 / 2 ^ nat (- e))
         in sgn x * of_int (round_even (\<bar>x\<bar> / ulp)) * ulp))"

text \<open>
  The four exception objects of the module, and the ways in which a call leaves the
  behaviour that C defines, or that the idealisation can follow, on arrays of the
  declared types:
  \<^item> \<open>OutOfBounds\<close>, an access outside a buffer;
  \<^item> \<open>IndeterminateValue\<close>, the read of a local variable that has no initialiser
    and has not been assigned;
  \<^item> \<open>IntegerOverflow\<close>, the conversion to \<^verbatim>\<open>int\<close> of a floating-point number
    whose truncation no \<^verbatim>\<open>int\<close> holds, or an \<^verbatim>\<open>int\<close> sum that no \<^verbatim>\<open>int\<close> holds;
  \<^item> \<open>DivisionByZero\<close> and \<open>LogOfNonPositive\<close>, a floating-point division by
    zero and the logarithm of a number that is not positive.  The code goes on from
    these with an infinity or a NaN, for which there is no real number: the model
    stops where one arises.
\<close>

datatype error =
    CombineGridsError string
  | Profile2DError string
  | DataCubeError string
  | InterpolateError string
  | OutOfBounds
  | IndeterminateValue
  | IntegerOverflow
  | DivisionByZero
  | LogOfNonPositive

text \<open>
  The array pointers of an entry point are locals without an initialiser (lines 50-53,
  275, 410-411), assigned one after the other as the arguments are converted.  A check
  that fails sets the exception and jumps to the label \<^verbatim>\<open>_fail\<close>, which passes every
  one of these pointers to \<^verbatim>\<open>Py_XDECREF\<close>; that macro compares its argument with
  \<^verbatim>\<open>NULL\<close>, so it reads the pointer.  With \<open>declared\<close> pointers of which the
  first \<open>assigned\<close> have been assigned at the jump, the call reports the exception
  \<open>e\<close> only if none is left unassigned.
\<close>

definition released :: "nat \<Rightarrow> nat \<Rightarrow> error \<Rightarrow> error" where
  "released declared assigned e = (if assigned < declared then IndeterminateValue else e)"

text \<open>
  The decimal digits of a number, as the conversion \<^verbatim>\<open>%i\<close> of \<^verbatim>\<open>PyErr_Format\<close>
  writes them.
\<close>

fun decimal :: "nat \<Rightarrow> string" where
  "decimal n =
     (if n < 10 then [''0123456789'' ! n]
      else decimal (n div 10) @ [''0123456789'' ! (n mod 10)])"

declare decimal.simps [simp del]

text \<open>
  An array object with its shape: \<^verbatim>\<open>nd\<close> is the length of \<open>dimensions\<close>, and
  \<open>data\<close> is the buffer in C order, which holds as many elements as the product of
  the dimensions.  The entry points ask for C-contiguous arrays, so
  \<^verbatim>\<open>PyArray_GETPTR2\<close> and \<^verbatim>\<open>PyArray_GETPTR3\<close> address the elements at the
  offsets below.
\<close>

record 'a ndarray =
  dimensions :: "nat list"
  data :: "'a list"

definition PyArray_SIZE :: "'a ndarray \<Rightarrow> nat" where
  "PyArray_SIZE a = prod_list (dimensions a)"

definition offset1 :: "'a ndarray \<Rightarrow> nat \<Rightarrow> nat" where
  "offset1 a i = i * prod_list (tl (dimensions a))"

definition offset2 :: "'a ndarray \<Rightarrow> nat \<Rightarrow> nat \<Rightarrow> nat" where
  "offset2 a i j = i * dimensions a ! 1 + j"

definition offset3 :: "'a ndarray \<Rightarrow> nat \<Rightarrow> nat \<Rightarrow> nat \<Rightarrow> nat" where
  "offset3 a i j k = (i * dimensions a ! 1 + j) * dimensions a ! 2 + k"

section \<open>CombineGrids\<close>

text \<open>The ten array arguments of \<^verbatim>\<open>Py_CombineGrids\<close>, each flattened as \<^verbatim>\<open>->data\<close> is.\<close>

record combine_grids =
  src_x :: "npy_int64 list"
  src_y :: "npy_int64 list"
  src_mask :: "npy_int64 list"
  src_wgt :: "npy_float64 list"
  src_vals :: "npy_float64 list list"
  dst_x :: "npy_int64 list"
  dst_y :: "npy_int64 list"
  dst_mask :: "npy_int64 list"
  dst_wgt :: "npy_float64 list"
  dst_vals :: "npy_float64 list list"

text \<open>
  A run of the loops either completes with the buffers and \<^verbatim>\<open>num_found\<close>, or stops at
  an out-of-bounds access with the buffers as they are at that point.
\<close>

type_synonym combine_run = "error \<times> combine_grids + combine_grids \<times> c_int"

text \<open>
  Lines 204-206: \<^verbatim>\<open>for (i = 0; i < NumArrays; i++) dst_vals[i][di] += src_vals[i][si];\<close>
  The lengths of the channel arrays are never compared with \<^verbatim>\<open>src_len\<close> or
  \<^verbatim>\<open>dst_len\<close>, so both accesses can leave their buffer.
\<close>

fun vals_loop :: "nat \<Rightarrow> nat \<Rightarrow> nat list \<Rightarrow> combine_grids \<Rightarrow> error \<times> combine_grids + combine_grids" where
  "vals_loop si di [] g = Inr g"
| "vals_loop si di (i # is) g =
     (if si < length (src_vals g ! i) \<and> di < length (dst_vals g ! i)
      then vals_loop si di is
             (g\<lparr>dst_vals := (dst_vals g)[i := (dst_vals g ! i)[di := dst_vals g ! i ! di + src_vals g ! i ! si]]\<rparr>)
      else Inl (OutOfBounds, g))"

text \<open>
  Lines 197-206, the body run at a coordinate match of source point \<open>si\<close> with
  destination point \<open>di\<close>.  \<^verbatim>\<open>src_wgt[di]\<close> indexes the source weights with the
  destination index, which need not be below \<^verbatim>\<open>src_len\<close>.  The mask expression is a C
  logical expression: its value is 0 or 1.
\<close>

definition on_match :: "c_int \<Rightarrow> nat \<Rightarrow> nat \<Rightarrow> combine_grids \<times> c_int \<Rightarrow> combine_run" where
  "on_match refinement_factor si di = (\<lambda>(g, num_found).
     if di < length (src_wgt g) then
       let g1 = g\<lparr>dst_wgt := (dst_wgt g)[di := dst_wgt g ! di + src_wgt g ! di]\<rparr>;
           g2 = g1\<lparr>dst_mask := (dst_mask g1)[di :=
                  (if (src_mask g1 ! si \<noteq> 0 \<and> dst_mask g1 ! di \<noteq> 0) \<or>
                      (refinement_factor \<noteq> 1 \<and> dst_mask g1 ! di \<noteq> 0) then 1 else 0)]\<rparr>;
           g3 = g2\<lparr>src_x := (src_x g2)[si := - 1]\<rparr>
       in (case vals_loop si di [0..<length (src_vals g3)] g3 of
             Inl e \<Rightarrow> Inl e
           | Inr g4 \<Rightarrow> Inr (g4, num_found + 1))
     else Inl (OutOfBounds, g))"

text \<open>
  Lines 193-209, the scan of the destination points for one fine coordinate.  A
  destination point with negative x is skipped; after a match the scan goes on unless
  the refinement factor is 1.
\<close>

fun dst_loop :: "c_int \<Rightarrow> nat \<Rightarrow> npy_int64 \<Rightarrow> npy_int64 \<Rightarrow> nat list \<Rightarrow> combine_grids \<times> c_int \<Rightarrow> combine_run" where
  "dst_loop refinement_factor si fine_x fine_y [] s = Inr s"
| "dst_loop refinement_factor si fine_x fine_y (di # dis) s =
     (if dst_x (fst s) ! di <s 0 then dst_loop refinement_factor si fine_x fine_y dis s
      else if fine_x = dst_x (fst s) ! di \<and> fine_y = dst_y (fst s) ! di then
        (case on_match refinement_factor si di s of
           Inl e \<Rightarrow> Inl e
         | Inr s' \<Rightarrow> if refinement_factor = 1 then Inr s'
                     else dst_loop refinement_factor si fine_x fine_y dis s')
      else dst_loop refinement_factor si fine_x fine_y dis s)"

text \<open>Lines 190-210, the loop over \<^verbatim>\<open>y_off\<close>.\<close>

fun y_off_loop :: "c_int \<Rightarrow> nat \<Rightarrow> npy_int64 \<Rightarrow> npy_int64 \<Rightarrow> nat \<Rightarrow> nat list \<Rightarrow> combine_grids \<times> c_int \<Rightarrow> combine_run" where
  "y_off_loop refinement_factor si init_x init_y x_off [] s = Inr s"
| "y_off_loop refinement_factor si init_x init_y x_off (y_off # ys) s =
     (case dst_loop refinement_factor si (init_x + of_nat x_off) (init_y + of_nat y_off)
             [0..<length (dst_x (fst s))] s of
        Inl e \<Rightarrow> Inl e
      | Inr s' \<Rightarrow> y_off_loop refinement_factor si init_x init_y x_off ys s')"

text \<open>Lines 189-211, the loop over \<^verbatim>\<open>x_off\<close>.\<close>

fun x_off_loop :: "c_int \<Rightarrow> nat \<Rightarrow> npy_int64 \<Rightarrow> npy_int64 \<Rightarrow> nat list \<Rightarrow> combine_grids \<times> c_int \<Rightarrow> combine_run" where
  "x_off_loop refinement_factor si init_x init_y [] s = Inr s"
| "x_off_loop refinement_factor si init_x init_y (x_off # xs) s =
     (case y_off_loop refinement_factor si init_x init_y x_off
             [0..<nat (sint refinement_factor)] s of
        Inl e \<Rightarrow> Inl e
      | Inr s' \<Rightarrow> x_off_loop refinement_factor si init_x init_y xs s')"

text \<open>
  Lines 185-212, the loop over the source points.  The sentinel test reads
  \<^verbatim>\<open>src_x[si]\<close> once, when the iteration for \<open>si\<close> starts; \<^verbatim>\<open>init_x\<close> and
  \<^verbatim>\<open>init_y\<close> are computed then and kept for the whole iteration.
\<close>

fun src_loop :: "c_int \<Rightarrow> nat list \<Rightarrow> combine_grids \<times> c_int \<Rightarrow> combine_run" where
  "src_loop refinement_factor [] s = Inr s"
| "src_loop refinement_factor (si # sis) s =
     (if src_x (fst s) ! si <s 0 then src_loop refinement_factor sis s
      else
        (case x_off_loop refinement_factor si
                (scast refinement_factor * src_x (fst s) ! si)
                (scast refinement_factor * src_y (fst s) ! si)
                [0..<nat (sint refinement_factor)] s of
           Inl e \<Rightarrow> Inl e
         | Inr s' \<Rightarrow> src_loop refinement_factor sis s'))"

text \<open>
  Lines 239-255, the label \<^verbatim>\<open>_fail\<close> of \<^verbatim>\<open>Py_CombineGrids\<close>.  After the eight
  array pointers it reads \<^verbatim>\<open>NumArrays\<close>, a local without an initialiser that line
  133 assigns; if that is positive it reads \<^verbatim>\<open>grid_src_vals[i]\<close> and
  \<^verbatim>\<open>grid_dst_vals[i]\<close>, and these two pointers are assigned at lines 145-146 only,
  which no failing call reaches.  \<open>NumArrays\<close> is \<open>None\<close> before line 133.
\<close>

definition combine_fail :: "nat \<Rightarrow> nat option \<Rightarrow> error \<Rightarrow> error" where
  "combine_fail assigned NumArrays e =
     released 8 assigned
       (case NumArrays of
          None \<Rightarrow> IndeterminateValue
        | Some n \<Rightarrow> if 0 < n then IndeterminateValue else e)"

text \<open>
  \<^verbatim>\<open>Py_CombineGrids\<close>: the checks of lines 76-143 in their order, each with the
  number of array pointers assigned when it is made, then the loops with
  \<^verbatim>\<open>num_found = 0\<close>.  The result pairs what the call returns (an exception, a fault
  or \<^verbatim>\<open>num_found\<close>) with the buffers after the call, or at the fault.
\<close>

definition Py_CombineGrids :: "combine_grids \<Rightarrow> c_int \<Rightarrow> (error + c_int) \<times> combine_grids" where
  "Py_CombineGrids g refinement_factor =
     (if length (src_y g) \<noteq> length (src_x g) then
        (Inl (combine_fail 2 None
           (CombineGridsError ''CombineGrids: src_x and src_y must be the same shape.'')), g)
      else if length (src_mask g) \<noteq> length (src_x g) then
        (Inl (combine_fail 3 None
           (CombineGridsError ''CombineGrids: src_x and src_mask must be the same shape.'')), g)
      else if length (src_wgt g) \<noteq> length (src_x g) then
        (Inl (combine_fail 4 None
           (CombineGridsError ''CombineGrids: src_x and src_wgt must be the same shape.'')), g)
      else if length (dst_y g) \<noteq> length (dst_x g) then
        (Inl (combine_fail 6 None
           (CombineGridsError ''CombineGrids: dst_x and dst_y must be the same shape.'')), g)
      else if length (dst_mask g) \<noteq> length (dst_x g) then
        (Inl (combine_fail 7 None
           (CombineGridsError ''CombineGrids: dst_x and dst_mask must be the same shape.'')), g)
      else if length (dst_wgt g) \<noteq> length (dst_x g) then
        (Inl (combine_fail 8 None
           (CombineGridsError ''CombineGrids: dst_x and dst_wgt must be the same shape.'')), g)
      else if length (src_vals g) < 1 then
        (Inl (combine_fail 8 (Some (length (src_vals g)))
           (CombineGridsError ''CombineGrids: You have to pass me lists of things.'')), g)
      else if length (dst_vals g) \<noteq> length (src_vals g) then
        (Inl (combine_fail 8 (Some (length (src_vals g)))
           (CombineGridsError
              ''CombineGrids: Sorry, but your lists of values are different lengths.'')), g)
      else
        (case src_loop refinement_factor [0..<length (src_x g)] (g, 0) of
           Inl (e, g') \<Rightarrow> (Inl e, g')
         | Inr (g', num_found) \<Rightarrow> (Inr num_found, g')))"

subsection \<open>The matches of a call, read off the arguments\<close>

text \<open>
  A match event is a source point, a sub-offset and a destination point:
  \<open>(si, x_off, y_off, di)\<close>.  The following functions list, from the buffers as they
  are when the call starts, the events in the order the loops reach them.
\<close>

type_synonym match_event = "nat \<times> nat \<times> nat \<times> nat"

text \<open>Destination point \<open>di\<close> is valid and lies on the fine coordinate.\<close>

definition coordinate_match :: "combine_grids \<Rightarrow> npy_int64 \<Rightarrow> npy_int64 \<Rightarrow> nat \<Rightarrow> bool" where
  "coordinate_match g fine_x fine_y di \<longleftrightarrow>
     \<not> dst_x g ! di <s 0 \<and> fine_x = dst_x g ! di \<and> fine_y = dst_y g ! di"

text \<open>Of the destination points on a fine coordinate, refinement factor 1 takes the first only.\<close>

definition scanned :: "c_int \<Rightarrow> nat list \<Rightarrow> nat list" where
  "scanned r ds = (if r = 1 then take 1 ds else ds)"

definition y_off_events :: "combine_grids \<Rightarrow> c_int \<Rightarrow> nat \<Rightarrow> npy_int64 \<Rightarrow> npy_int64 \<Rightarrow> nat \<Rightarrow> nat list \<Rightarrow> match_event list" where
  "y_off_events g r si init_x init_y x_off ys =
     concat (map (\<lambda>y_off. map (\<lambda>di. (si, x_off, y_off, di))
        (scanned r (filter (coordinate_match g (init_x + of_nat x_off) (init_y + of_nat y_off))
           [0..<length (dst_x g)]))) ys)"

definition x_off_events :: "combine_grids \<Rightarrow> c_int \<Rightarrow> nat \<Rightarrow> npy_int64 \<Rightarrow> npy_int64 \<Rightarrow> nat list \<Rightarrow> match_event list" where
  "x_off_events g r si init_x init_y xs =
     concat (map (\<lambda>x_off. y_off_events g r si init_x init_y x_off [0..<nat (sint r)]) xs)"

text \<open>The events of source point \<open>si\<close>: none if its x is negative.\<close>

definition source_events :: "combine_grids \<Rightarrow> c_int \<Rightarrow> nat \<Rightarrow> match_event list" where
  "source_events g r si =
     (if src_x g ! si <s 0 then []
      else x_off_events g r si (scast r * src_x g ! si) (scast r * src_y g ! si)
             [0..<nat (sint r)])"

definition match_events :: "combine_grids \<Rightarrow> c_int \<Rightarrow> match_event list" where
  "match_events g r = concat (map (source_events g r) [0..<length (src_x g)])"

text \<open>The match body run at each event of a list, in order, stopping at a fault.\<close>

fun run_events :: "c_int \<Rightarrow> match_event list \<Rightarrow> combine_grids \<times> c_int \<Rightarrow> combine_run" where
  "run_events r [] s = Inr s"
| "run_events r ((si, x_off, y_off, di) # es) s =
     (case on_match r si di s of Inl e \<Rightarrow> Inl e | Inr s' \<Rightarrow> run_events r es s')"

text \<open>How often destination point \<open>j\<close> occurs in a list of events.\<close>

definition matches_at :: "nat \<Rightarrow> match_event list \<Rightarrow> nat" where
  "matches_at j es = length (filter (\<lambda>(si, x_off, y_off, di). di = j) es)"


subsection \<open>A worked call\<close>

text \<open>
  Refinement factor 2; source point 0 at \<open>(0, 0)\<close> covers the four fine cells
  \<open>(0, 0)\<close>, \<open>(0, 1)\<close>, \<open>(1, 0)\<close>, \<open>(1, 1)\<close>, each held by one destination point;
  source point 1 at \<open>(5, 0)\<close> covers none, source points 2 and 3 are already consumed.
  \<open>fan_out_after_first\<close> is the state after the first match, \<open>fan_out_result\<close> the
  state after the call.
\<close>

definition fan_out_example :: combine_grids where
  "fan_out_example =
     \<lparr>src_x = [0, 5, - 1, - 1], src_y = [0, 0, 0, 0], src_mask = [1, 1, 1, 1],
      src_wgt = [10, 20, 30, 40], src_vals = [[100, 0, 0, 0]],
      dst_x = [0, 0, 1, 1], dst_y = [0, 1, 0, 1], dst_mask = [1, 1, 0, 2],
      dst_wgt = [1, 2, 3, 4], dst_vals = [[5, 6, 7, 8]]\<rparr>"


definition fan_out_result :: combine_grids where
  "fan_out_result =
     \<lparr>src_x = [- 1, 5, - 1, - 1], src_y = [0, 0, 0, 0], src_mask = [1, 1, 1, 1],
      src_wgt = [10, 20, 30, 40], src_vals = [[100, 0, 0, 0]],
      dst_x = [0, 0, 1, 1], dst_y = [0, 1, 0, 1], dst_mask = [1, 1, 0, 1],
      dst_wgt = [11, 22, 33, 44], dst_vals = [[105, 106, 107, 108]]\<rparr>"






section \<open>DataCubeRefine and DataCubeReplace\<close>

text \<open>
  The eight array arguments of \<^verbatim>\<open>DataCubeGeneric\<close>; the child mask holds C
  \<^verbatim>\<open>int\<close>s.  Only the buffers of \<open>g_data\<close> and \<open>c_data\<close> are written.
\<close>

record cube_args =
  g_le :: "npy_float64 ndarray"
  g_dx :: "npy_float64 ndarray"
  g_data :: "npy_float64 ndarray"
  g_cm :: "c_int ndarray"
  c_le :: "npy_float64 ndarray"
  c_re :: "npy_float64 ndarray"
  c_dx :: "npy_float64 ndarray"
  c_data :: "npy_float64 ndarray"

text \<open>
  Lines 259-267.  Both rules are called as \<^verbatim>\<open>to_call(val1, val2)\<close> with \<open>val1\<close>
  pointing into the cube and \<open>val2\<close> into the grid; the model takes the two values and
  returns the two values after the call.  \<^verbatim>\<open>dcRefine\<close> is \<^verbatim>\<open>*val1 = *val2\<close>,
  \<^verbatim>\<open>dcReplace\<close> is \<^verbatim>\<open>*val2 = *val1\<close>.
\<close>

type_synonym to_call = "npy_float64 \<times> npy_float64 \<Rightarrow> npy_float64 \<times> npy_float64"

definition dcRefine :: to_call where
  "dcRefine = (\<lambda>(val1, val2). (val2, val2))"

definition dcReplace :: to_call where
  "dcReplace = (\<lambda>(val1, val2). (val1, val1))"

text \<open>
  The state of the loops: the buffer of \<open>g_data\<close>, the buffer of \<open>c_data\<close>, and
  \<^verbatim>\<open>total\<close>.  Lines 534-537 at grid cell \<open>(xg, yg, zg)\<close> and cube cell
  \<open>(xc, yc, zc)\<close>:
\<close>

type_synonym cube_state = "npy_float64 list \<times> npy_float64 list \<times> int"

type_synonym cell = "nat \<times> nat \<times> nat"

definition cube_offset :: "cube_args \<Rightarrow> cell \<Rightarrow> nat" where
  "cube_offset a = (\<lambda>(xc, yc, zc). offset3 (c_data a) xc yc zc)"

definition grid_offset :: "cube_args \<Rightarrow> cell \<Rightarrow> nat" where
  "grid_offset a = (\<lambda>(xg, yg, zg). offset3 (g_data a) xg yg zg)"

definition visit :: "to_call \<Rightarrow> cube_args \<Rightarrow> cell \<Rightarrow> cell \<Rightarrow> cube_state \<Rightarrow> cube_state" where
  "visit to_call a gc cc = (\<lambda>(gd, cd, total).
     let (val1, val2) = to_call (cd ! cube_offset a cc, gd ! grid_offset a gc)
     in (gd[grid_offset a gc := val2], cd[cube_offset a cc := val1], total + 1))"

text \<open>
  The expressions of lines 515-518, which lines 520-523 and 527-530 repeat for the other
  two axes, each operation rounded: the left (\<open>n\<close>) or right (\<open>n + 1\<close>) face of
  grid cell \<open>n\<close> on axis \<open>k\<close>, and its distance from the cube's left edge in cube
  cells.
\<close>

definition cell_face :: "cube_args \<Rightarrow> nat \<Rightarrow> nat \<Rightarrow> real" where
  "cell_face a k n = binary64 (data (g_le a) ! k + binary64 (data (g_dx a) ! k * real n))"

definition cube_coordinate :: "cube_args \<Rightarrow> nat \<Rightarrow> nat \<Rightarrow> real" where
  "cube_coordinate a k n =
     binary64 (binary64 (cell_face a k n - data (c_le a) ! k) / data (c_dx a) ! k)"

text \<open>
  Grid cell \<open>n\<close> on axis \<open>k\<close> lies outside the cube (the two tests that
  \<^verbatim>\<open>continue\<close>); the first cube index it covers, not below 0; the index after the
  last one it covers, not above the cube's dimension.
\<close>

definition cell_outside :: "cube_args \<Rightarrow> nat \<Rightarrow> nat \<Rightarrow> bool" where
  "cell_outside a k n \<longleftrightarrow>
     cell_face a k n > data (c_re a) ! k \<or> cell_face a k (n + 1) < data (c_le a) ! k"

definition cmin :: "cube_args \<Rightarrow> nat \<Rightarrow> nat \<Rightarrow> int" where
  "cmin a k n = max \<lfloor>cube_coordinate a k n\<rfloor> 0"

definition cmax :: "cube_args \<Rightarrow> nat \<Rightarrow> nat \<Rightarrow> int" where
  "cmax a k n = min \<lceil>cube_coordinate a k (n + 1)\<rceil> (int (dimensions (c_data a) ! k))"

text \<open>
  Lines 531-533: the cube cells of an index box \<open>[cmin_x, cmax_x) \<times> [cmin_y, cmax_y) \<times>
  [cmin_z, cmax_z)\<close>, in loop order.  The lower bounds are not negative.
\<close>

definition cube_box :: "int \<times> int \<Rightarrow> int \<times> int \<Rightarrow> int \<times> int \<Rightarrow> cell list" where
  "cube_box bx by bz =
     [(xc, yc, zc).
        xc \<leftarrow> [nat (fst bx)..<nat (snd bx)],
        yc \<leftarrow> [nat (fst by)..<nat (snd by)],
        zc \<leftarrow> [nat (fst bz)..<nat (snd bz)]]"

text \<open>
  Lines 524-541, the loop over \<^verbatim>\<open>zg\<close>.  The child mask is read with the indices of
  \<open>g_data\<close>, whose shape it is never compared with.  Where the cell size of the cube
  is 0 on an axis, the quotients of the code are infinite or NaN and its loops go on
  with what their conversion to an index yields; the reals have no such numbers, and
  the three loops of the model stop there with \<open>DivisionByZero\<close>.
\<close>

fun zg_loop :: "to_call \<Rightarrow> cube_args \<Rightarrow> c_int \<Rightarrow> nat \<Rightarrow> nat \<Rightarrow> int \<times> int \<Rightarrow> int \<times> int \<Rightarrow> nat list \<Rightarrow> cube_state \<Rightarrow> error \<times> cube_state + cube_state" where
  "zg_loop to_call a ll xg yg bx by [] s = Inr s"
| "zg_loop to_call a ll xg yg bx by (zg # zgs) s =
     (if length (data (g_cm a)) \<le> offset3 (g_cm a) xg yg zg then Inl (OutOfBounds, s)
      else if ll = 0 \<and> data (g_cm a) ! offset3 (g_cm a) xg yg zg = 0 then
        zg_loop to_call a ll xg yg bx by zgs s
      else if cell_outside a 2 zg then zg_loop to_call a ll xg yg bx by zgs s
      else if data (c_dx a) ! 2 = 0 then Inl (DivisionByZero, s)
      else zg_loop to_call a ll xg yg bx by zgs
             (fold (visit to_call a (xg, yg, zg))
                (cube_box bx by (cmin a 2 zg, cmax a 2 zg)) s))"

text \<open>Lines 519-542, the loop over \<^verbatim>\<open>yg\<close>.\<close>

fun yg_loop :: "to_call \<Rightarrow> cube_args \<Rightarrow> c_int \<Rightarrow> nat \<Rightarrow> int \<times> int \<Rightarrow> nat list \<Rightarrow> cube_state \<Rightarrow> error \<times> cube_state + cube_state" where
  "yg_loop to_call a ll xg bx [] s = Inr s"
| "yg_loop to_call a ll xg bx (yg # ygs) s =
     (if cell_outside a 1 yg then yg_loop to_call a ll xg bx ygs s
      else if data (c_dx a) ! 1 = 0 then Inl (DivisionByZero, s)
      else
        (case zg_loop to_call a ll xg yg bx (cmin a 1 yg, cmax a 1 yg)
                [0..<dimensions (g_data a) ! 2] s of
           Inl e \<Rightarrow> Inl e
         | Inr s' \<Rightarrow> yg_loop to_call a ll xg bx ygs s'))"

text \<open>Lines 514-543, the loop over \<^verbatim>\<open>xg\<close>.\<close>

fun xg_loop :: "to_call \<Rightarrow> cube_args \<Rightarrow> c_int \<Rightarrow> nat list \<Rightarrow> cube_state \<Rightarrow> error \<times> cube_state + cube_state" where
  "xg_loop to_call a ll [] s = Inr s"
| "xg_loop to_call a ll (xg # xgs) s =
     (if cell_outside a 0 xg then xg_loop to_call a ll xgs s
      else if data (c_dx a) ! 0 = 0 then Inl (DivisionByZero, s)
      else
        (case yg_loop to_call a ll xg (cmin a 0 xg, cmax a 0 xg)
                [0..<dimensions (g_data a) ! 1] s of
           Inl e \<Rightarrow> Inl e
         | Inr s' \<Rightarrow> xg_loop to_call a ll xgs s'))"

text \<open>The arguments with the buffers of a state written back.\<close>

definition with_buffers :: "cube_args \<Rightarrow> cube_state \<Rightarrow> cube_args" where
  "with_buffers a = (\<lambda>(gd, cd, total).
     a\<lparr>g_data := (g_data a)\<lparr>data := gd\<rparr>, c_data := (c_data a)\<lparr>data := cd\<rparr>\<rparr>)"

text \<open>The loops start from the buffers of the arguments, with \<^verbatim>\<open>total = 0\<close>.\<close>

definition cube_start :: "cube_args \<Rightarrow> cube_state" where
  "cube_start a = (data (g_data a), data (c_data a), 0)"

text \<open>
  \<^verbatim>\<open>DataCubeGeneric\<close>: the checks of lines 425-505 in their order (an array of the
  wrong number of dimensions makes \<^verbatim>\<open>PyArray_FromAny\<close> return \<^verbatim>\<open>NULL\<close>), each with
  the number of array pointers assigned when it is made (the label \<^verbatim>\<open>_fail\<close> of
  lines 559-568 releases eight), then the loops with \<^verbatim>\<open>total = 0\<close>.
\<close>

definition DataCubeGeneric :: "to_call \<Rightarrow> cube_args \<Rightarrow> c_int \<Rightarrow> (error + int) \<times> cube_args" where
  "DataCubeGeneric to_call a ll =
     (if length (dimensions (g_le a)) \<noteq> 1 \<or> PyArray_SIZE (g_le a) \<noteq> 3 then
        (Inl (released 8 1 (DataCubeError ''CombineGrids: Three values, one dimension required for g_le.'')), a)
      else if length (dimensions (g_dx a)) \<noteq> 1 \<or> PyArray_SIZE (g_dx a) \<noteq> 3 then
        (Inl (released 8 2 (DataCubeError ''CombineGrids: Three values, one dimension required for g_dx.'')), a)
      else if length (dimensions (g_data a)) \<noteq> 3 then
        (Inl (released 8 3 (DataCubeError ''CombineGrids: Three dimensions required for g_data.'')), a)
      else if length (dimensions (g_cm a)) \<noteq> 3 then
        (Inl (released 8 4 (DataCubeError ''CombineGrids: Three dimensions required for g_cm.'')), a)
      else if length (dimensions (c_le a)) \<noteq> 1 \<or> PyArray_SIZE (c_le a) \<noteq> 3 then
        (Inl (released 8 5 (DataCubeError ''CombineGrids: Three values, one dimension required for c_le.'')), a)
      else if length (dimensions (c_re a)) \<noteq> 1 \<or> PyArray_SIZE (c_re a) \<noteq> 3 then
        (Inl (released 8 6 (DataCubeError ''CombineGrids: Three values, one dimension required for c_re.'')), a)
      else if length (dimensions (c_dx a)) \<noteq> 1 \<or> PyArray_SIZE (c_dx a) \<noteq> 3 then
        (Inl (released 8 7 (DataCubeError ''CombineGrids: Three values, one dimension required for c_dx.'')), a)
      else if length (dimensions (c_data a)) \<noteq> 3 then
        (Inl (released 8 8 (DataCubeError ''CombineGrids: Three dimensions required for c_data.'')), a)
      else
        (case xg_loop to_call a ll [0..<dimensions (g_data a) ! 0] (cube_start a) of
           Inl (e, s) \<Rightarrow> (Inl e, with_buffers a s)
         | Inr s \<Rightarrow> (Inr (snd (snd s)), with_buffers a s)))"

definition Py_DataCubeRefine :: "cube_args \<Rightarrow> c_int \<Rightarrow> (error + int) \<times> cube_args" where
  "Py_DataCubeRefine = DataCubeGeneric dcRefine"

definition Py_DataCubeReplace :: "cube_args \<Rightarrow> c_int \<Rightarrow> (error + int) \<times> cube_args" where
  "Py_DataCubeReplace = DataCubeGeneric dcReplace"


subsection \<open>The cell pairs of a call, read off the arguments\<close>

text \<open>
  The pairs of a grid cell and a cube cell that a call visits, in loop order.  They
  depend on the edges, the cell sizes, the shapes, the child mask and the flag, none of
  which a call writes.
\<close>

definition z_visits :: "cube_args \<Rightarrow> c_int \<Rightarrow> nat \<Rightarrow> nat \<Rightarrow> int \<times> int \<Rightarrow> int \<times> int \<Rightarrow> nat list \<Rightarrow> (cell \<times> cell) list" where
  "z_visits a ll xg yg bx by zgs =
     concat (map (\<lambda>zg.
       if (ll = 0 \<and> data (g_cm a) ! offset3 (g_cm a) xg yg zg = 0) \<or> cell_outside a 2 zg then []
       else map (Pair (xg, yg, zg)) (cube_box bx by (cmin a 2 zg, cmax a 2 zg))) zgs)"

definition y_visits :: "cube_args \<Rightarrow> c_int \<Rightarrow> nat \<Rightarrow> int \<times> int \<Rightarrow> nat list \<Rightarrow> (cell \<times> cell) list" where
  "y_visits a ll xg bx ygs =
     concat (map (\<lambda>yg.
       if cell_outside a 1 yg then []
       else z_visits a ll xg yg bx (cmin a 1 yg, cmax a 1 yg) [0..<dimensions (g_data a) ! 2]) ygs)"

definition x_visits :: "cube_args \<Rightarrow> c_int \<Rightarrow> nat list \<Rightarrow> (cell \<times> cell) list" where
  "x_visits a ll xgs =
     concat (map (\<lambda>xg.
       if cell_outside a 0 xg then []
       else y_visits a ll xg (cmin a 0 xg, cmax a 0 xg) [0..<dimensions (g_data a) ! 1]) xgs)"

definition cube_visits :: "cube_args \<Rightarrow> c_int \<Rightarrow> (cell \<times> cell) list" where
  "cube_visits a ll = x_visits a ll [0..<dimensions (g_data a) ! 0]"

definition run_visits :: "to_call \<Rightarrow> cube_args \<Rightarrow> (cell \<times> cell) list \<Rightarrow> cube_state \<Rightarrow> cube_state" where
  "run_visits to_call a vs s = fold (\<lambda>(gc, cc). visit to_call a gc cc) vs s"

text \<open>
  What the loops need in order not to leave defined behaviour: nonzero cube cell sizes,
  and a child mask that can be read at every cell of \<open>g_data\<close>.
\<close>

definition cube_defined :: "cube_args \<Rightarrow> bool" where
  "cube_defined a \<longleftrightarrow>
     (\<forall>k < 3. data (c_dx a) ! k \<noteq> 0) \<and>
     (\<forall>xg < dimensions (g_data a) ! 0. \<forall>yg < dimensions (g_data a) ! 1.
        \<forall>zg < dimensions (g_data a) ! 2. offset3 (g_cm a) xg yg zg < length (data (g_cm a)))"


text \<open>
  Coincident grids: the same left edge and cell size on every axis, a cube right edge
  that is the left edge plus cell size times dimension, and equal dimensions.
\<close>

definition coincident :: "cube_args \<Rightarrow> bool" where
  "coincident a \<longleftrightarrow>
     (\<forall>k < 3. data (g_le a) ! k = data (c_le a) ! k \<and> data (g_dx a) ! k = data (c_dx a) ! k \<and>
        data (c_re a) ! k = data (c_le a) ! k + data (c_dx a) ! k * real (dimensions (c_data a) ! k)) \<and>
     dimensions (g_data a) = dimensions (c_data a)"

text \<open>
  The geometry of a grid is computed without rounding error when, for every face
  \<open>n\<close> of every axis, the product, the sum, the difference and the quotient of
  lines 515-518 are all representable.
\<close>

definition exact_axis :: "cube_args \<Rightarrow> nat \<Rightarrow> bool" where
  "exact_axis a k \<longleftrightarrow>
     (\<forall>n \<le> dimensions (g_data a) ! k.
        binary64 (data (g_dx a) ! k * real n) = data (g_dx a) ! k * real n \<and>
        binary64 (data (g_le a) ! k + data (g_dx a) ! k * real n) =
          data (g_le a) ! k + data (g_dx a) ! k * real n \<and>
        binary64 (data (g_le a) ! k + data (g_dx a) ! k * real n - data (c_le a) ! k) =
          data (g_le a) ! k + data (g_dx a) ! k * real n - data (c_le a) ! k \<and>
        binary64 ((data (g_le a) ! k + data (g_dx a) ! k * real n - data (c_le a) ! k) / data (c_dx a) ! k) =
          (data (g_le a) ! k + data (g_dx a) ! k * real n - data (c_le a) ! k) / data (c_dx a) ! k)"

definition exact_geometry :: "cube_args \<Rightarrow> bool" where
  "exact_geometry a \<longleftrightarrow> exact_axis a 0 \<and> exact_axis a 1 \<and> exact_axis a 2"

subsection \<open>A worked pair of grids\<close>

text \<open>
  Two coincident grids of two cells along x, with unit cells from the origin.  Grid
  cell 1 is not a leaf.  \<open>pair_cube_replaced\<close> is \<open>pair_cube\<close> after
  \<^verbatim>\<open>DataCubeReplace\<close> over the leaf cells.
\<close>

definition pair_cube :: cube_args where
  "pair_cube =
     \<lparr>g_le = \<lparr>dimensions = [3], data = [0, 0, 0]\<rparr>,
      g_dx = \<lparr>dimensions = [3], data = [1, 1, 1]\<rparr>,
      g_data = \<lparr>dimensions = [2, 1, 1], data = [7, 8]\<rparr>,
      g_cm = \<lparr>dimensions = [2, 1, 1], data = [1, 0]\<rparr>,
      c_le = \<lparr>dimensions = [3], data = [0, 0, 0]\<rparr>,
      c_re = \<lparr>dimensions = [3], data = [2, 1, 1]\<rparr>,
      c_dx = \<lparr>dimensions = [3], data = [1, 1, 1]\<rparr>,
      c_data = \<lparr>dimensions = [2, 1, 1], data = [9, 10]\<rparr>\<rparr>"

definition pair_cube_replaced :: cube_args where
  "pair_cube_replaced = pair_cube\<lparr>g_data := \<lparr>dimensions = [2, 1, 1], data = [9, 8]\<rparr>\<rparr>"

text \<open>
  The same two grids with left edge 0.2 and cell size 0.1 along x, as binary64 holds
  them: 0.1 is \<open>3602879701896397 / 2^55\<close>, 0.2 is twice and the right edge 0.4 four
  times that.  Both cells are leaves.  The other two constants are the arguments after
  \<^verbatim>\<open>DataCubeReplace\<close> and after \<^verbatim>\<open>DataCubeRefine\<close> on its result.
\<close>

definition tenth_cube :: cube_args where
  "tenth_cube =
     \<lparr>g_le = \<lparr>dimensions = [3], data = [3602879701896397 / 18014398509481984, 0, 0]\<rparr>,
      g_dx = \<lparr>dimensions = [3], data = [3602879701896397 / 36028797018963968, 1, 1]\<rparr>,
      g_data = \<lparr>dimensions = [2, 1, 1], data = [7, 8]\<rparr>,
      g_cm = \<lparr>dimensions = [2, 1, 1], data = [1, 1]\<rparr>,
      c_le = \<lparr>dimensions = [3], data = [3602879701896397 / 18014398509481984, 0, 0]\<rparr>,
      c_re = \<lparr>dimensions = [3], data = [3602879701896397 / 9007199254740992, 1, 1]\<rparr>,
      c_dx = \<lparr>dimensions = [3], data = [3602879701896397 / 36028797018963968, 1, 1]\<rparr>,
      c_data = \<lparr>dimensions = [2, 1, 1], data = [9, 10]\<rparr>\<rparr>"

definition tenth_cube_replaced :: cube_args where
  "tenth_cube_replaced = tenth_cube\<lparr>g_data := \<lparr>dimensions = [2, 1, 1], data = [10, 10]\<rparr>\<rparr>"

definition tenth_cube_refined :: cube_args where
  "tenth_cube_refined = tenth_cube_replaced\<lparr>c_data := \<lparr>dimensions = [2, 1, 1], data = [10, 10]\<rparr>\<rparr>"

section \<open>Interpolate\<close>

text \<open>The five array arguments of \<^verbatim>\<open>Py_Interpolate\<close>; the columns are \<^verbatim>\<open>npy_int32\<close>.\<close>

record interp_args =
  axis :: "npy_float64 ndarray"
  table :: "npy_float64 ndarray"
  desired :: "npy_float64 ndarray"
  outputvals :: "npy_float64 ndarray"
  columns :: "32 word ndarray"

text \<open>
  The conversion \<^verbatim>\<open>(int)\<close> of a floating-point number truncates towards zero, and C
  defines it only if an \<^verbatim>\<open>int\<close> holds the truncated number.  Line 614 converts the
  quotient and adds 1 to the \<^verbatim>\<open>int\<close>, a sum that C defines only if an \<^verbatim>\<open>int\<close> holds
  it as well.  \<open>index_defined q\<close> says both of the truncated quotient \<open>q\<close>.
\<close>

definition c_trunc :: "real \<Rightarrow> int" where
  "c_trunc x = (if x < 0 then \<lceil>x\<rceil> else \<lfloor>x\<rfloor>)"

definition INT_MIN :: int where
  "INT_MIN = - 2147483648"

definition INT_MAX :: int where
  "INT_MAX = 2147483647"

definition index_defined :: "int \<Rightarrow> bool" where
  "index_defined q \<longleftrightarrow> INT_MIN \<le> q \<and> q \<le> INT_MAX \<and> q + 1 \<le> INT_MAX"

text \<open>
  Lines 613-614, with the macros \<^verbatim>\<open>min\<close> and \<^verbatim>\<open>max\<close> of lines 37-38, where the
  conversion and the sum are defined.
\<close>

definition axis_index :: "nat \<Rightarrow> real \<Rightarrow> real \<Rightarrow> real \<Rightarrow> int" where
  "axis_index num_axis_points logtem0 dlogtem desired_log =
     min (int num_axis_points - 1) (max 0 (c_trunc ((desired_log - logtem0) / dlogtem) + 1))"

text \<open>
  \<^verbatim>\<open>PyArray_GETPTR2\<close> with signed indices: the element offset, and whether it lies in
  the buffer.
\<close>

definition offset2i :: "'a ndarray \<Rightarrow> int \<Rightarrow> int \<Rightarrow> int" where
  "offset2i a i j = i * int (dimensions a ! 1) + j"

definition in_buffer :: "'a ndarray \<Rightarrow> int \<Rightarrow> bool" where
  "in_buffer a off \<longleftrightarrow> 2 \<le> length (dimensions a) \<and> 0 \<le> off \<and> off < int (length (data a))"

text \<open>
  Lines 618-624, the loop over the requested columns for query \<open>desired_num\<close>; the
  state is the buffer of \<open>outputvals\<close>.  Neither the row \<open>axis_ind - 1\<close>, which is
  \<open>-1\<close> when the index clamps to 0, nor the column index, nor the output row is
  checked against its array.
\<close>

fun column_loop :: "interp_args \<Rightarrow> nat \<Rightarrow> int \<Rightarrow> real \<Rightarrow> real \<Rightarrow> real \<Rightarrow> nat list \<Rightarrow> npy_float64 list \<Rightarrow> error \<times> npy_float64 list + npy_float64 list" where
  "column_loop a desired_num axis_ind desired_log t1 tdef [] out = Inr out"
| "column_loop a desired_num axis_ind desired_log t1 tdef (column # cs) out =
     (let col_ind = sint (data (columns a) ! column);
          lower = offset2i (table a) (axis_ind - 1) col_ind;
          upper = offset2i (table a) axis_ind col_ind;
          dest = offset2 (outputvals a) desired_num column
      in if \<not> in_buffer (table a) lower \<or> \<not> in_buffer (table a) upper \<or> length out \<le> dest
         then Inl (OutOfBounds, out)
         else if tdef = 0 then Inl (DivisionByZero, out)
         else
           (let ki = data (table a) ! nat lower;
                kip = data (table a) ! nat upper
            in column_loop a desired_num axis_ind desired_log t1 tdef cs
                 (out[dest := ki + (desired_log - t1) * (kip - ki) / tdef])))"

text \<open>
  Lines 610-625, the loop over the queries.  A query whose quotient
  \<^verbatim>\<open>(desired-logtem0)/dlogtem\<close> lies beyond the range of \<^verbatim>\<open>int\<close> stops the model:
  what the conversion of line 614 yields for it is not defined.
\<close>

fun desired_loop :: "interp_args \<Rightarrow> nat \<Rightarrow> real \<Rightarrow> real \<Rightarrow> nat \<Rightarrow> nat list \<Rightarrow> npy_float64 list \<Rightarrow> error \<times> npy_float64 list + npy_float64 list" where
  "desired_loop a num_axis_points logtem0 dlogtem num_columns [] out = Inr out"
| "desired_loop a num_axis_points logtem0 dlogtem num_columns (desired_num # ds) out =
     (if length (data (desired a)) \<le> offset1 (desired a) desired_num then Inl (OutOfBounds, out)
      else if data (desired a) ! offset1 (desired a) desired_num \<le> 0 then Inl (LogOfNonPositive, out)
      else if dlogtem = 0 then Inl (DivisionByZero, out)
      else if \<not> index_defined (c_trunc
                ((log 10 (data (desired a) ! offset1 (desired a) desired_num) - logtem0) / dlogtem))
      then Inl (IntegerOverflow, out)
      else
        (let desired_log = log 10 (data (desired a) ! offset1 (desired a) desired_num);
             axis_ind = axis_index num_axis_points logtem0 dlogtem desired_log;
             t1 = logtem0 + real_of_int (axis_ind - 1) * dlogtem;
             t2 = logtem0 + real_of_int (axis_ind + 0) * dlogtem;
             tdef = t2 - t1
         in case column_loop a desired_num axis_ind desired_log t1 tdef [0..<num_columns] out of
              Inl e \<Rightarrow> Inl e
            | Inr out' \<Rightarrow> desired_loop a num_axis_points logtem0 dlogtem num_columns ds out'))"

text \<open>
  Lines 590-627.  \<^verbatim>\<open>logtem0\<close>, \<^verbatim>\<open>logtem9\<close> and \<^verbatim>\<open>dlogtem\<close> are computed once;
  an empty axis, an axis end that is not positive and an axis of one point leave the
  model here.
\<close>

definition Interpolate :: "interp_args \<Rightarrow> nat \<Rightarrow> nat \<Rightarrow> error \<times> npy_float64 list + npy_float64 list" where
  "Interpolate a num_axis_points num_columns =
     (if num_axis_points = 0 \<or> length (data (axis a)) \<le> num_axis_points - 1 then
        Inl (OutOfBounds, data (outputvals a))
      else if data (axis a) ! 0 \<le> 0 \<or> data (axis a) ! (num_axis_points - 1) \<le> 0 then
        Inl (LogOfNonPositive, data (outputvals a))
      else if num_axis_points = 1 then Inl (DivisionByZero, data (outputvals a))
      else
        (let logtem0 = log 10 (data (axis a) ! 0);
             logtem9 = log 10 (data (axis a) ! (num_axis_points - 1));
             dlogtem = (logtem9 - logtem0) / real (num_axis_points - 1)
         in desired_loop a num_axis_points logtem0 dlogtem num_columns
              [0..<dimensions (desired a) ! 0] (data (outputvals a))))"

text \<open>
  \<^verbatim>\<open>Py_Interpolate\<close>, lines 653-673: the check of the column count, which reads the
  second dimension of \<open>outputvals\<close>, then the kernel.  The call returns \<^verbatim>\<open>None\<close>.
  All five array pointers are assigned before the check (lines 641-645), so the label
  \<^verbatim>\<open>_fail\<close> of lines 675-683 releases assigned pointers only.  The message ends with
  the number of columns requested.
\<close>

definition Py_Interpolate :: "interp_args \<Rightarrow> (error + unit) \<times> interp_args" where
  "Py_Interpolate a =
     (if length (dimensions (outputvals a)) < 2 then (Inl OutOfBounds, a)
      else if dimensions (columns a) ! 0 \<noteq> dimensions (outputvals a) ! 1 then
        (Inl (released 5 5 (InterpolateError
           (''Interpolate: number of columns requested must match number of columns in output buffer. ''
            @ decimal (dimensions (columns a) ! 0)))), a)
      else
        (case Interpolate a (dimensions (axis a) ! 0) (dimensions (columns a) ! 0) of
           Inl (e, out) \<Rightarrow> (Inl e, a\<lparr>outputvals := (outputvals a)\<lparr>data := out\<rparr>\<rparr>)
         | Inr out \<Rightarrow> (Inr (), a\<lparr>outputvals := (outputvals a)\<lparr>data := out\<rparr>\<rparr>)))"


subsection \<open>The value written for a query and a column\<close>

text \<open>
  The value of lines 620-623 for bracket index \<open>axis_ind\<close>; the value a query gets
  from the loop of lines 610-625, given \<open>logtem0\<close> and \<open>dlogtem\<close>; and the same from
  the arguments alone.  \<^verbatim>\<open>tdef\<close> is \<open>t2 - t1\<close>, that is \<open>dlogtem\<close>.
\<close>

definition cell_value :: "interp_args \<Rightarrow> int \<Rightarrow> real \<Rightarrow> real \<Rightarrow> real \<Rightarrow> nat \<Rightarrow> real" where
  "cell_value a axis_ind desired_log t1 tdef column =
     (let col_ind = sint (data (columns a) ! column);
          ki = data (table a) ! nat (offset2i (table a) (axis_ind - 1) col_ind);
          kip = data (table a) ! nat (offset2i (table a) axis_ind col_ind)
      in ki + (desired_log - t1) * (kip - ki) / tdef)"

definition query_value :: "interp_args \<Rightarrow> nat \<Rightarrow> nat \<Rightarrow> real" where
  "query_value a desired_num column =
     (let num_axis_points = dimensions (axis a) ! 0;
          logtem0 = log 10 (data (axis a) ! 0);
          logtem9 = log 10 (data (axis a) ! (num_axis_points - 1));
          dlogtem = (logtem9 - logtem0) / real (num_axis_points - 1);
          desired_log = log 10 (data (desired a) ! offset1 (desired a) desired_num);
          axis_ind = axis_index num_axis_points logtem0 dlogtem desired_log;
          t1 = logtem0 + real_of_int (axis_ind - 1) * dlogtem
      in cell_value a axis_ind desired_log t1 dlogtem column)"

definition row_value :: "interp_args \<Rightarrow> nat \<Rightarrow> real \<Rightarrow> real \<Rightarrow> nat \<Rightarrow> nat \<Rightarrow> real" where
  "row_value a m logtem0 dlogtem desired_num column =
     (let desired_log = log 10 (data (desired a) ! offset1 (desired a) desired_num);
          axis_ind = axis_index m logtem0 dlogtem desired_log;
          t1 = logtem0 + real_of_int (axis_ind - 1) * dlogtem
      in cell_value a axis_ind desired_log t1 dlogtem column)"

subsection \<open>A worked table\<close>

text \<open>
  Three axis points a decade apart, one column, and one query: at the axis point 10,
  or, in \<open>decade_table_above\<close>, at 1000, above the last axis point.
\<close>

definition decade_table :: interp_args where
  "decade_table =
     \<lparr>axis = \<lparr>dimensions = [3], data = [1, 10, 100]\<rparr>,
      table = \<lparr>dimensions = [3, 1], data = [5, 50, 500]\<rparr>,
      desired = \<lparr>dimensions = [1], data = [10]\<rparr>,
      outputvals = \<lparr>dimensions = [1, 1], data = [0]\<rparr>,
      columns = \<lparr>dimensions = [1], data = [0]\<rparr>\<rparr>"

definition decade_table_above :: interp_args where
  "decade_table_above = decade_table\<lparr>desired := \<lparr>dimensions = [1], data = [1000]\<rparr>\<rparr>"


section \<open>Bin2DProfile\<close>

text \<open>
  The seven array arguments of \<^verbatim>\<open>Py_Bin2DProfile\<close>.  The loop never reads the four
  sample arrays through a typed pointer: it indexes \<^verbatim>\<open>->data\<close>, which the array
  object declares as \<^verbatim>\<open>char *\<close> (the other kernels cast it, as in
  \<^verbatim>\<open>(npy_int64 *) grid_src_x->data\<close>), so what it reads are the bytes of the buffers.
  The buffers of the sample arrays are therefore kept as 64-bit patterns: the two's
  complement of an \<^verbatim>\<open>npy_int64\<close>, the IEEE 754 binary64 encoding of an
  \<^verbatim>\<open>npy_float64\<close>.  The three accumulators are read and written as
  \<^verbatim>\<open>npy_float64\<close>.
\<close>

record bin2d_args =
  bins_x :: "npy_int64 ndarray"
  bins_y :: "npy_int64 ndarray"
  wsource :: "64 word ndarray"
  bsource :: "64 word ndarray"
  wresult :: "npy_float64 ndarray"
  bresult :: "npy_float64 ndarray"
  used :: "npy_float64 ndarray"

text \<open>
  \<^verbatim>\<open>a->data[n]\<close> for an array of 8-byte elements: byte \<open>n mod 8\<close> of element
  \<open>n div 8\<close>, the least significant byte first, read as a signed \<^verbatim>\<open>char\<close>.
\<close>

definition raw_byte :: "64 word list \<Rightarrow> nat \<Rightarrow> int" where
  "raw_byte buf n = sint (ucast (drop_bit (8 * (n mod 8)) (buf ! (n div 8))) :: 8 word)"

text \<open>
  Lines 352-360; the state is the three accumulator buffers.  The bin indices are not
  checked against the shape of the accumulators.
\<close>

type_synonym profile_state = "npy_float64 list \<times> npy_float64 list \<times> npy_float64 list"

fun profile_loop :: "bin2d_args \<Rightarrow> nat list \<Rightarrow> profile_state \<Rightarrow> error \<times> profile_state + profile_state" where
  "profile_loop a [] s = Inr s"
| "profile_loop a (n # ns) (wr, br, us) =
     (let i = raw_byte (data (bins_x a)) n;
          j = raw_byte (data (bins_y a)) n
      in if \<not> in_buffer (wresult a) (offset2i (wresult a) i j) then Inl (OutOfBounds, (wr, br, us))
         else
           (let wr' = wr[nat (offset2i (wresult a) i j) :=
                        wr ! nat (offset2i (wresult a) i j) + real_of_int (raw_byte (data (wsource a)) n)]
            in if \<not> in_buffer (bresult a) (offset2i (bresult a) i j) then Inl (OutOfBounds, (wr', br, us))
               else
                 (let br' = br[nat (offset2i (bresult a) i j) :=
                              br ! nat (offset2i (bresult a) i j) +
                              real_of_int (raw_byte (data (wsource a)) n * raw_byte (data (bsource a)) n)]
                  in if \<not> in_buffer (used a) (offset2i (used a) i j) then Inl (OutOfBounds, (wr', br', us))
                     else profile_loop a ns (wr', br', us[nat (offset2i (used a) i j) := 1]))))"

text \<open>The arguments with the accumulator buffers of a state written back.\<close>

definition with_accumulators :: "bin2d_args \<Rightarrow> profile_state \<Rightarrow> bin2d_args" where
  "with_accumulators a = (\<lambda>(wr, br, us).
     a\<lparr>wresult := (wresult a)\<lparr>data := wr\<rparr>, bresult := (bresult a)\<lparr>data := br\<rparr>,
       used := (used a)\<lparr>data := us\<rparr>\<rparr>)"

text \<open>
  \<^verbatim>\<open>Py_Bin2DProfile\<close>: the checks of lines 284-347 in their order (an array of the
  wrong number of dimensions makes \<^verbatim>\<open>PyArray_FromAny\<close> return \<^verbatim>\<open>NULL\<close>), each with
  the number of array pointers assigned when it is made (the label \<^verbatim>\<open>_fail\<close> of
  lines 373-381 releases seven), then the loop.  The call returns 1.
\<close>

definition Py_Bin2DProfile :: "bin2d_args \<Rightarrow> (error + int) \<times> bin2d_args" where
  "Py_Bin2DProfile a =
     (if length (dimensions (bins_x a)) \<noteq> 1 then
        (Inl (released 7 1
           (Profile2DError ''Bin2DProfile: One dimension required for bins_x.'')), a)
      else if length (dimensions (bins_y a)) \<noteq> 1 \<or> PyArray_SIZE (bins_x a) \<noteq> PyArray_SIZE (bins_y a) then
        (Inl (released 7 2
           (Profile2DError
              ''Bin2DProfile: One dimension required for bins_y, same size as bins_x.'')), a)
      else if length (dimensions (wsource a)) \<noteq> 1 \<or> PyArray_SIZE (bins_x a) \<noteq> PyArray_SIZE (wsource a) then
        (Inl (released 7 3
           (Profile2DError
              ''Bin2DProfile: One dimension required for wsource, same size as bins_x.'')), a)
      else if length (dimensions (bsource a)) \<noteq> 1 \<or> PyArray_SIZE (bins_x a) \<noteq> PyArray_SIZE (bsource a) then
        (Inl (released 7 4
           (Profile2DError
              ''Bin2DProfile: One dimension required for bsource, same size as bins_x.'')), a)
      else if length (dimensions (wresult a)) \<noteq> 2 then
        (Inl (released 7 5
           (Profile2DError ''Bin2DProfile: Two dimensions required for wresult.'')), a)
      else if length (dimensions (bresult a)) \<noteq> 2 \<or> PyArray_SIZE (wresult a) \<noteq> PyArray_SIZE (bresult a) \<or>
              dimensions (bresult a) ! 0 \<noteq> dimensions (wresult a) ! 0 then
        (Inl (released 7 6
           (Profile2DError
              ''Bin2DProfile: Two dimensions required for bresult, same shape as wresult.'')), a)
      else if length (dimensions (used a)) \<noteq> 2 \<or> PyArray_SIZE (used a) \<noteq> PyArray_SIZE (wresult a) \<or>
              dimensions (used a) ! 0 \<noteq> dimensions (wresult a) ! 0 then
        (Inl (released 7 7
           (Profile2DError
              ''Bin2DProfile: Two dimensions required for used, same shape as wresult.'')), a)
      else
        (case profile_loop a [0..<dimensions (bins_x a) ! 0]
                (data (wresult a), data (bresult a), data (used a)) of
           Inl (e, s) \<Rightarrow> (Inl e, with_accumulators a s)
         | Inr s \<Rightarrow> (Inr 1, with_accumulators a s)))"

subsection \<open>A worked histogram\<close>

text \<open>
  Two samples, in the bins \<open>(0, 0)\<close> and \<open>(1, 0)\<close>, each with weight 1.0 and value
  1.0 (the bit pattern \<open>0x3FF0000000000000\<close>), and accumulators of two rows and one
  column that start at 0.
\<close>

definition two_samples :: bin2d_args where
  "two_samples =
     \<lparr>bins_x = \<lparr>dimensions = [2], data = [0, 1]\<rparr>,
      bins_y = \<lparr>dimensions = [2], data = [0, 0]\<rparr>,
      wsource = \<lparr>dimensions = [2], data = [0x3FF0000000000000, 0x3FF0000000000000]\<rparr>,
      bsource = \<lparr>dimensions = [2], data = [0x3FF0000000000000, 0x3FF0000000000000]\<rparr>,
      wresult = \<lparr>dimensions = [2, 1], data = [0, 0]\<rparr>,
      bresult = \<lparr>dimensions = [2, 1], data = [0, 0]\<rparr>,
      used = \<lparr>dimensions = [2, 1], data = [0, 0]\<rparr>\<rparr>"


section \<open>Validation\<close>

text \<open>
  The validation failures of each entry point.  For \<^verbatim>\<open>Py_CombineGrids\<close>: a parallel
  array whose length differs from that of \<open>src_x\<close> or \<open>dst_x\<close>, an empty channel
  list, or channel lists of different lengths.  For \<^verbatim>\<open>Py_Bin2DProfile\<close>: a sample
  array that is not one-dimensional or differs in size from \<open>bins_x\<close>, or an
  accumulator that is not two-dimensional or differs in shape from \<open>wresult\<close>.  For
  \<^verbatim>\<open>DataCubeGeneric\<close>: an edge or cell-size vector that is not one-dimensional with
  three values, or a data array that is not three-dimensional.  For
  \<^verbatim>\<open>Py_Interpolate\<close>: a number of columns that differs from the second dimension of
  the output buffer.  The failures of an array other than the last one an entry point
  converts are named apart.
\<close>

definition combine_arrays_invalid :: "combine_grids \<Rightarrow> bool" where
  "combine_arrays_invalid g \<longleftrightarrow>
     length (src_y g) \<noteq> length (src_x g) \<or> length (src_mask g) \<noteq> length (src_x g) \<or>
     length (src_wgt g) \<noteq> length (src_x g) \<or> length (dst_y g) \<noteq> length (dst_x g) \<or>
     length (dst_mask g) \<noteq> length (dst_x g) \<or> length (dst_wgt g) \<noteq> length (dst_x g)"

definition combine_invalid :: "combine_grids \<Rightarrow> bool" where
  "combine_invalid g \<longleftrightarrow>
     combine_arrays_invalid g \<or> src_vals g = [] \<or> length (dst_vals g) \<noteq> length (src_vals g)"

definition profile_arrays_invalid :: "bin2d_args \<Rightarrow> bool" where
  "profile_arrays_invalid a \<longleftrightarrow>
     length (dimensions (bins_x a)) \<noteq> 1 \<or>
     length (dimensions (bins_y a)) \<noteq> 1 \<or> PyArray_SIZE (bins_x a) \<noteq> PyArray_SIZE (bins_y a) \<or>
     length (dimensions (wsource a)) \<noteq> 1 \<or> PyArray_SIZE (bins_x a) \<noteq> PyArray_SIZE (wsource a) \<or>
     length (dimensions (bsource a)) \<noteq> 1 \<or> PyArray_SIZE (bins_x a) \<noteq> PyArray_SIZE (bsource a) \<or>
     length (dimensions (wresult a)) \<noteq> 2 \<or>
     length (dimensions (bresult a)) \<noteq> 2 \<or> PyArray_SIZE (wresult a) \<noteq> PyArray_SIZE (bresult a) \<or>
     dimensions (bresult a) ! 0 \<noteq> dimensions (wresult a) ! 0"

definition profile_invalid :: "bin2d_args \<Rightarrow> bool" where
  "profile_invalid a \<longleftrightarrow>
     profile_arrays_invalid a \<or>
     length (dimensions (used a)) \<noteq> 2 \<or> PyArray_SIZE (used a) \<noteq> PyArray_SIZE (wresult a) \<or>
     dimensions (used a) ! 0 \<noteq> dimensions (wresult a) ! 0"

definition three_vector :: "npy_float64 ndarray \<Rightarrow> bool" where
  "three_vector v \<longleftrightarrow> length (dimensions v) = 1 \<and> PyArray_SIZE v = 3"

definition cube_arrays_invalid :: "cube_args \<Rightarrow> bool" where
  "cube_arrays_invalid a \<longleftrightarrow>
     \<not> three_vector (g_le a) \<or> \<not> three_vector (g_dx a) \<or>
     length (dimensions (g_data a)) \<noteq> 3 \<or> length (dimensions (g_cm a)) \<noteq> 3 \<or>
     \<not> three_vector (c_le a) \<or> \<not> three_vector (c_re a) \<or> \<not> three_vector (c_dx a)"

definition cube_invalid :: "cube_args \<Rightarrow> bool" where
  "cube_invalid a \<longleftrightarrow> cube_arrays_invalid a \<or> length (dimensions (c_data a)) \<noteq> 3"

definition interpolate_invalid :: "interp_args \<Rightarrow> bool" where
  "interpolate_invalid a \<longleftrightarrow>
     2 \<le> length (dimensions (outputvals a)) \<and>
     dimensions (columns a) ! 0 \<noteq> dimensions (outputvals a) ! 1"

text \<open>
  Four calls that fail validation: channel lists of different lengths, a column
  array shorter than the row array, a cell-size vector of two values, and two
  requested columns for an output buffer of one.
\<close>

definition fan_out_unpaired :: combine_grids where
  "fan_out_unpaired = fan_out_example\<lparr>dst_vals := []\<rparr>"

definition two_samples_short :: bin2d_args where
  "two_samples_short = two_samples\<lparr>bins_y := \<lparr>dimensions = [1], data = [0]\<rparr>\<rparr>"

definition pair_cube_flat :: cube_args where
  "pair_cube_flat = pair_cube\<lparr>c_dx := \<lparr>dimensions = [2], data = [1, 1]\<rparr>\<rparr>"

definition decade_table_wide :: interp_args where
  "decade_table_wide = decade_table\<lparr>columns := \<lparr>dimensions = [2], data = [0, 0]\<rparr>\<rparr>"

section \<open>Properties of CombineGrids\<close>

subsection \<open>The loops run the match body at the listed events\<close>

lemma run_events_append:
  "run_events r (es @ fs) s =
     (case run_events r es s of Inl e \<Rightarrow> Inl e | Inr s' \<Rightarrow> run_events r fs s')"
  by (induction es arbitrary: s) (auto split: sum.splits)

lemma vals_loop_frame:
  "vals_loop si di is g = Inr g' \<Longrightarrow> \<exists>v. g' = g\<lparr>dst_vals := v\<rparr>"
proof (induction "is" arbitrary: g)
  case Nil
  then have "g' = g\<lparr>dst_vals := dst_vals g\<rparr>" by simp
  then show ?case by blast
next
  case (Cons i "is")
  then show ?case by (fastforce split: if_splits)
qed

lemma on_match_Inr:
  assumes "on_match r si di (g, n) = Inr (g', n')"
  shows "di < length (src_wgt g)" and "n' = n + 1"
    and "\<exists>v. g' = g\<lparr>dst_wgt := (dst_wgt g)[di := dst_wgt g ! di + src_wgt g ! di],
                     dst_mask := (dst_mask g)[di :=
                        (if (src_mask g ! si \<noteq> 0 \<and> dst_mask g ! di \<noteq> 0) \<or>
                            (r \<noteq> 1 \<and> dst_mask g ! di \<noteq> 0) then 1 else 0)],
                     src_x := (src_x g)[si := - 1], dst_vals := v\<rparr>"
  using assms
  by (auto simp: on_match_def Let_def split: if_splits sum.splits dest!: vals_loop_frame)

lemma on_match_coords:
  assumes "on_match r si di s = Inr s'"
  shows "dst_x (fst s') = dst_x (fst s)" "dst_y (fst s') = dst_y (fst s)"
    "src_y (fst s') = src_y (fst s)" "src_x (fst s') = (src_x (fst s))[si := - 1]"
  using on_match_Inr(3)[of r si di "fst s" "snd s" "fst s'" "snd s'"] assms by auto

lemma coordinate_match_cong:
  "dst_x g' = dst_x g \<Longrightarrow> dst_y g' = dst_y g \<Longrightarrow> coordinate_match g' = coordinate_match g"
  by (auto simp: coordinate_match_def fun_eq_iff)

lemma dst_loop_events:
  "dst_loop r si fx fy dis s =
     run_events r (map (\<lambda>di. (si, xo, yo, di)) (scanned r (filter (coordinate_match (fst s) fx fy) dis))) s"
proof (induction dis arbitrary: s)
  case Nil
  show ?case by (simp add: scanned_def)
next
  case (Cons di dis)
  show ?case
  proof (cases "coordinate_match (fst s) fx fy di")
    case False
    then show ?thesis using Cons.IH[of s] by (auto simp: coordinate_match_def)
  next
    case True
    show ?thesis
    proof (cases "on_match r si di s")
      case (Inl e)
      with True show ?thesis by (auto simp: coordinate_match_def scanned_def)
    next
      case (Inr s')
      have "coordinate_match (fst s') = coordinate_match (fst s)"
        using on_match_coords[OF Inr] by (intro coordinate_match_cong) auto
      with True Inr Cons.IH[of s'] show ?thesis
        by (auto simp: coordinate_match_def scanned_def)
    qed
  qed
qed

lemma y_off_events_cong:
  "dst_x g' = dst_x g \<Longrightarrow> dst_y g' = dst_y g \<Longrightarrow> y_off_events g' = y_off_events g"
  using coordinate_match_cong[of g' g] by (intro ext) (simp add: y_off_events_def)

lemma x_off_events_cong:
  "dst_x g' = dst_x g \<Longrightarrow> dst_y g' = dst_y g \<Longrightarrow> x_off_events g' = x_off_events g"
  using y_off_events_cong[of g' g] by (intro ext) (simp add: x_off_events_def)

lemma run_events_coords:
  "run_events r es s = Inr s' \<Longrightarrow>
     dst_x (fst s') = dst_x (fst s) \<and> dst_y (fst s') = dst_y (fst s) \<and> src_y (fst s') = src_y (fst s)"
proof (induction es arbitrary: s)
  case Nil
  then show ?case by simp
next
  case (Cons e es)
  obtain si xo yo di where e: "e = (si, xo, yo, di)" by (cases e) auto
  from Cons.prems e obtain s1 where s1: "on_match r si di s = Inr s1" "run_events r es s1 = Inr s'"
    by (auto split: sum.splits)
  from Cons.IH[OF s1(2)] on_match_coords[OF s1(1)] show ?case by simp
qed

lemma run_events_src_x:
  "run_events r es s = Inr s' \<Longrightarrow>
     length (src_x (fst s')) = length (src_x (fst s)) \<and>
     (\<forall>sj < length (src_x (fst s)).
        src_x (fst s') ! sj = (if sj \<in> fst ` set es then - 1 else src_x (fst s) ! sj))"
proof (induction es arbitrary: s)
  case Nil
  then show ?case by simp
next
  case (Cons e es)
  obtain si xo yo di where e: "e = (si, xo, yo, di)" by (cases e) auto
  from Cons.prems e obtain s1 where s1: "on_match r si di s = Inr s1" "run_events r es s1 = Inr s'"
    by (auto split: sum.splits)
  from Cons.IH[OF s1(2)] on_match_coords(4)[OF s1(1)] e show ?case
    by (auto simp: nth_list_update)
qed

lemma y_off_loop_events:
  "y_off_loop r si ix iy xo ys s = run_events r (y_off_events (fst s) r si ix iy xo ys) s"
proof (induction ys arbitrary: s)
  case Nil
  show ?case by (simp add: y_off_events_def)
next
  case (Cons yo ys)
  let ?es = "map (\<lambda>di. (si, xo, yo, di))
        (scanned r (filter (coordinate_match (fst s) (ix + of_nat xo) (iy + of_nat yo))
           [0..<length (dst_x (fst s))]))"
  have split: "y_off_events (fst s) r si ix iy xo (yo # ys) = ?es @ y_off_events (fst s) r si ix iy xo ys"
    by (simp add: y_off_events_def)
  have d: "dst_loop r si (ix + of_nat xo) (iy + of_nat yo) [0..<length (dst_x (fst s))] s = run_events r ?es s"
    by (rule dst_loop_events)
  show ?case
  proof (cases "run_events r ?es s")
    case (Inl e)
    then show ?thesis by (simp add: split run_events_append d)
  next
    case (Inr s')
    have "y_off_events (fst s') = y_off_events (fst s)"
      using run_events_coords[OF Inr] by (intro y_off_events_cong) auto
    with Inr Cons.IH[of s'] show ?thesis by (simp add: split run_events_append d)
  qed
qed

lemma x_off_loop_events:
  "x_off_loop r si ix iy xs s = run_events r (x_off_events (fst s) r si ix iy xs) s"
proof (induction xs arbitrary: s)
  case Nil
  show ?case by (simp add: x_off_events_def)
next
  case (Cons xo xs)
  let ?es = "y_off_events (fst s) r si ix iy xo [0..<nat (sint r)]"
  have split: "x_off_events (fst s) r si ix iy (xo # xs) = ?es @ x_off_events (fst s) r si ix iy xs"
    by (simp add: x_off_events_def)
  have d: "y_off_loop r si ix iy xo [0..<nat (sint r)] s = run_events r ?es s"
    by (rule y_off_loop_events)
  show ?case
  proof (cases "run_events r ?es s")
    case (Inl e)
    then show ?thesis by (simp add: split run_events_append d)
  next
    case (Inr s')
    have "x_off_events (fst s') = x_off_events (fst s)"
      using run_events_coords[OF Inr] by (intro x_off_events_cong) auto
    with Inr Cons.IH[of s'] show ?thesis by (simp add: split run_events_append d)
  qed
qed

lemma set_y_off_events: "e \<in> set (y_off_events g r si ix iy xo ys) \<Longrightarrow> fst e = si"
  by (auto simp: y_off_events_def)

lemma set_x_off_events: "e \<in> set (x_off_events g r si ix iy xs) \<Longrightarrow> fst e = si"
  by (auto simp: x_off_events_def dest: set_y_off_events)

lemma set_source_events: "e \<in> set (source_events g r si) \<Longrightarrow> fst e = si"
  by (auto simp: source_events_def dest: set_x_off_events split: if_splits)

lemma source_events_cong:
  assumes "dst_x g' = dst_x g" "dst_y g' = dst_y g" "src_y g' = src_y g"
    "src_x g' ! si = src_x g ! si"
  shows "source_events g' r si = source_events g r si"
  using assms x_off_events_cong[of g' g] by (simp add: source_events_def)

lemma src_loop_events:
  "distinct sis \<Longrightarrow> \<forall>si \<in> set sis. si < length (src_x (fst s)) \<Longrightarrow>
   src_loop r sis s = run_events r (concat (map (source_events (fst s) r) sis)) s"
proof (induction sis arbitrary: s)
  case Nil
  show ?case by simp
next
  case (Cons si sis)
  let ?es = "source_events (fst s) r si"
  have d: "src_loop r (si # sis) s =
      (case run_events r ?es s of Inl e \<Rightarrow> Inl e | Inr s' \<Rightarrow> src_loop r sis s')"
    by (simp add: source_events_def x_off_loop_events)
  show ?case
  proof (cases "run_events r ?es s")
    case (Inl e)
    then show ?thesis by (simp only: d) (simp add: run_events_append)
  next
    case (Inr s')
    note c = run_events_coords[OF Inr] and x = run_events_src_x[OF Inr]
    have "map (source_events (fst s') r) sis = map (source_events (fst s) r) sis"
    proof (rule map_cong[OF refl])
      fix sj assume sj: "sj \<in> set sis"
      with Cons.prems have "sj \<noteq> si" "sj < length (src_x (fst s))" by auto
      moreover have "sj \<notin> fst ` set ?es" using \<open>sj \<noteq> si\<close> by (auto dest: set_source_events)
      ultimately have "src_x (fst s') ! sj = src_x (fst s) ! sj" using x by simp
      with c show "source_events (fst s') r sj = source_events (fst s) r sj"
        by (intro source_events_cong) auto
    qed
    moreover have "src_loop r sis s' = run_events r (concat (map (source_events (fst s') r) sis)) s'"
      using Cons.prems x by (intro Cons.IH) auto
    ultimately show ?thesis using Inr by (simp only: d) (simp add: run_events_append)
  qed
qed

text \<open>
  The loops of a call are the match body run at the events of \<open>match_events\<close>, which
  are read off the buffers the call starts with.
\<close>

lemma src_loop_match_events:
  "src_loop r [0..<length (src_x g)] (g, n) = run_events r (match_events g r) (g, n)"
  using src_loop_events[of "[0..<length (src_x g)]" "(g, n)" r] by (simp add: match_events_def)

subsection \<open>What a completed call has done\<close>

lemma Py_CombineGrids_Inr:
  assumes "Py_CombineGrids g r = (Inr n, g')"
  shows "run_events r (match_events g r) (g, 0) = Inr (g', n)"
    and "length (src_y g) = length (src_x g)" and "length (src_mask g) = length (src_x g)"
    and "length (src_wgt g) = length (src_x g)" and "length (dst_y g) = length (dst_x g)"
    and "length (dst_mask g) = length (dst_x g)" and "length (dst_wgt g) = length (dst_x g)"
    and "src_vals g \<noteq> []" and "length (dst_vals g) = length (src_vals g)"
  using assms unfolding Py_CombineGrids_def src_loop_match_events
  by (auto split: if_splits sum.splits prod.splits)

lemma run_events_count:
  "run_events r es (g, n) = Inr (g', n') \<Longrightarrow> n' = n + of_nat (length es)"
proof (induction es arbitrary: g n)
  case Nil
  then show ?case by simp
next
  case (Cons e es)
  obtain si xo yo di where e: "e = (si, xo, yo, di)" by (cases e) auto
  from Cons.prems e obtain g1 n1 where s1: "on_match r si di (g, n) = Inr (g1, n1)"
    "run_events r es (g1, n1) = Inr (g', n')"
    by (auto split: sum.splits)
  from Cons.IH[OF s1(2)] on_match_Inr(2)[OF s1(1)] show ?case by simp
qed

lemma on_match_wgt:
  assumes "on_match r si di s = Inr s'"
  shows "src_wgt (fst s') = src_wgt (fst s)"
    and "dst_wgt (fst s') = (dst_wgt (fst s))[di := dst_wgt (fst s) ! di + src_wgt (fst s) ! di]"
  using on_match_Inr(3)[of r si di "fst s" "snd s" "fst s'" "snd s'"] assms by auto

lemma run_events_wgt:
  "run_events r es s = Inr s' \<Longrightarrow>
     src_wgt (fst s') = src_wgt (fst s) \<and> length (dst_wgt (fst s')) = length (dst_wgt (fst s)) \<and>
     (\<forall>j < length (dst_wgt (fst s)).
        dst_wgt (fst s') ! j = ((\<lambda>w. w + src_wgt (fst s) ! j) ^^ matches_at j es) (dst_wgt (fst s) ! j))"
proof (induction es arbitrary: s)
  case Nil
  then show ?case by (simp add: matches_at_def)
next
  case (Cons e es)
  obtain si xo yo di where e: "e = (si, xo, yo, di)" by (cases e) auto
  from Cons.prems e obtain s1 where s1: "on_match r si di s = Inr s1" "run_events r es s1 = Inr s'"
    by (auto split: sum.splits)
  note w = on_match_wgt[OF s1(1)] and ih = Cons.IH[OF s1(2)]
  have len: "src_wgt (fst s') = src_wgt (fst s)" "length (dst_wgt (fst s')) = length (dst_wgt (fst s))"
    using w ih by simp_all
  have "dst_wgt (fst s') ! j = ((\<lambda>w. w + src_wgt (fst s) ! j) ^^ matches_at j (e # es)) (dst_wgt (fst s) ! j)"
    if j: "j < length (dst_wgt (fst s))" for j
  proof -
    have "dst_wgt (fst s') ! j = ((\<lambda>w. w + src_wgt (fst s) ! j) ^^ matches_at j es) (dst_wgt (fst s1) ! j)"
      using ih j w by simp
    also have "dst_wgt (fst s1) ! j = (if di = j then dst_wgt (fst s) ! j + src_wgt (fst s) ! j else dst_wgt (fst s) ! j)"
      using j w by (simp add: nth_list_update)
    finally show ?thesis
      using funpow_swap1[of "\<lambda>w. w + src_wgt (fst s) ! j" "matches_at j es" "dst_wgt (fst s) ! j"]
      by (simp add: e matches_at_def)
  qed
  with len show ?case by blast
qed

lemma y_off_events_mem:
  "(a, b, c, d) \<in> set (y_off_events g r si ix iy xo ys) \<Longrightarrow>
     a = si \<and> b = xo \<and> c \<in> set ys \<and> d < length (dst_x g) \<and>
     coordinate_match g (ix + of_nat xo) (iy + of_nat c) d"
  by (auto simp: y_off_events_def scanned_def split: if_splits dest!: in_set_takeD)

lemma x_off_events_mem:
  "(a, b, c, d) \<in> set (x_off_events g r si ix iy xs) \<Longrightarrow>
     a = si \<and> b \<in> set xs \<and> c < nat (sint r) \<and> d < length (dst_x g) \<and>
     coordinate_match g (ix + of_nat b) (iy + of_nat c) d"
  by (auto simp: x_off_events_def dest!: y_off_events_mem)


lemma source_events_mem:
  assumes "(a, b, c, d) \<in> set (source_events g r si)"
  shows "a = si \<and> \<not> src_x g ! si <s 0 \<and> b < nat (sint r) \<and> c < nat (sint r) \<and> d < length (dst_x g) \<and>
     coordinate_match g (scast r * src_x g ! si + of_nat b) (scast r * src_y g ! si + of_nat c) d"
proof (cases "src_x g ! si <s 0")
  case True
  with assms show ?thesis by (simp add: source_events_def)
next
  case False
  with assms have "(a, b, c, d) \<in> set (x_off_events g r si (scast r * src_x g ! si) (scast r * src_y g ! si) [0..<nat (sint r)])"
    by (simp add: source_events_def)
  from x_off_events_mem[OF this] False show ?thesis by simp
qed

lemma match_events_mem:
  assumes "(si, x_off, y_off, di) \<in> set (match_events g r)"
  shows "si < length (src_x g)" "\<not> src_x g ! si <s 0"
    "x_off < nat (sint r)" "y_off < nat (sint r)" "di < length (dst_x g)"
    "coordinate_match g (scast r * src_x g ! si + of_nat x_off) (scast r * src_y g ! si + of_nat y_off) di"
proof -
  from assms obtain sj where sj: "sj < length (src_x g)" "(si, x_off, y_off, di) \<in> set (source_events g r sj)"
    by (auto simp: match_events_def)
  from source_events_mem[OF sj(2)] sj(1)
  show "si < length (src_x g)" "\<not> src_x g ! si <s 0"
    "x_off < nat (sint r)" "y_off < nat (sint r)" "di < length (dst_x g)"
    "coordinate_match g (scast r * src_x g ! si + of_nat x_off) (scast r * src_y g ! si + of_nat y_off) di"
    by simp_all
qed


lemma distinct_concat_map:
  assumes "distinct xs" and "\<And>x. x \<in> set xs \<Longrightarrow> distinct (f x)"
    and "\<And>x y. x \<in> set xs \<Longrightarrow> y \<in> set xs \<Longrightarrow> x \<noteq> y \<Longrightarrow> set (f x) \<inter> set (f y) = {}"
  shows "distinct (concat (map f xs))"
  using assms
proof (induction xs)
  case Nil
  show ?case by simp
next
  case (Cons x xs)
  have "distinct (concat (map f xs))" using Cons by simp
  moreover have "distinct (f x)" using Cons.prems by simp
  moreover have "set (f x) \<inter> set (f y) = {}" if "y \<in> set xs" for y
    using Cons.prems(1) Cons.prems(3)[of x y] that by auto
  ultimately show ?case by auto
qed

lemma distinct_scanned: "distinct ds \<Longrightarrow> distinct (scanned r ds)"
  by (simp add: scanned_def)

lemma distinct_y_off_events: "distinct ys \<Longrightarrow> distinct (y_off_events g r si ix iy xo ys)"
  unfolding y_off_events_def
  by (rule distinct_concat_map) (auto simp: distinct_map inj_on_def intro!: distinct_scanned)

lemma distinct_x_off_events: "distinct xs \<Longrightarrow> distinct (x_off_events g r si ix iy xs)"
  unfolding x_off_events_def
proof (rule distinct_concat_map)
  fix x y :: nat assume "x \<noteq> y"
  then show "set (y_off_events g r si ix iy x [0..<nat (sint r)]) \<inter>
             set (y_off_events g r si ix iy y [0..<nat (sint r)]) = {}"
    by (auto dest!: y_off_events_mem)
qed (simp_all add: distinct_y_off_events)

lemma distinct_source_events: "distinct (source_events g r si)"
  by (simp add: source_events_def distinct_x_off_events)

lemma distinct_match_events: "distinct (match_events g r)"
  unfolding match_events_def
proof (rule distinct_concat_map)
  fix x y :: nat assume "x \<noteq> y"
  then show "set (source_events g r x) \<inter> set (source_events g r y) = {}"
    by (auto dest!: source_events_mem)
qed (simp_all add: distinct_source_events)

lemma match_events_set:
  assumes "r \<noteq> 1"
  shows "set (match_events g r) =
     {(si, x_off, y_off, di). si < length (src_x g) \<and> \<not> src_x g ! si <s 0 \<and>
        x_off < nat (sint r) \<and> y_off < nat (sint r) \<and> di < length (dst_x g) \<and>
        coordinate_match g (scast r * src_x g ! si + of_nat x_off)
          (scast r * src_y g ! si + of_nat y_off) di}" (is "?L = ?R")
proof
  show "?L \<subseteq> ?R" by (auto dest: match_events_mem)
  show "?R \<subseteq> ?L"
  proof clarify
    fix si xo yo di
    assume a: "si < length (src_x g)" "\<not> src_x g ! si <s 0" "xo < nat (sint r)" "yo < nat (sint r)"
      "di < length (dst_x g)"
      "coordinate_match g (scast r * src_x g ! si + of_nat xo) (scast r * src_y g ! si + of_nat yo) di"
    have "(si, xo, yo, di) \<in> set (y_off_events g r si (scast r * src_x g ! si) (scast r * src_y g ! si) xo [0..<nat (sint r)])"
      using a assms by (force simp: y_off_events_def scanned_def)
    then have "(si, xo, yo, di) \<in> set (source_events g r si)"
      using a by (force simp: source_events_def x_off_events_def)
    then show "(si, xo, yo, di) \<in> set (match_events g r)"
      using a by (force simp: match_events_def)
  qed
qed





subsection \<open>The worked call\<close>

lemma fan_out_call: "Py_CombineGrids fan_out_example 2 = (Inr 4, fan_out_result)"
  by code_simp

lemma fan_out_events:
  "match_events fan_out_example 2 = [(0, 0, 0, 0), (0, 0, 1, 1), (0, 1, 0, 2), (0, 1, 1, 3)]"
  by code_simp


subsection \<open>Weight accumulation\<close>

text \<open>
  Claim C1.  In a call that completes, every match at destination point \<open>j\<close> adds to
  \<^verbatim>\<open>dst_wgt[j]\<close> the entry \<^verbatim>\<open>src_wgt[j]\<close> of the source weight array, read at the
  destination's index: after the call \<^verbatim>\<open>dst_wgt[j]\<close> is its value before the call with
  \<^verbatim>\<open>src_wgt[j]\<close> added once per match at \<open>j\<close>, and the source weights are as before.
  The worked call shows that the addend is neither the source weight at the source
  index nor the destination's own prior weight.
\<close>

theorem merge_weight_addend:
  assumes "Py_CombineGrids g r = (Inr n, g')" and "j < length (dst_wgt g)"
  shows "src_wgt g' = src_wgt g \<and>
         dst_wgt g' ! j = ((\<lambda>w. w + src_wgt g ! j) ^^ matches_at j (match_events g r)) (dst_wgt g ! j)"
  using run_events_wgt[OF Py_CombineGrids_Inr(1)[OF assms(1)]] assms(2) by simp

theorem merge_weight_addend_witness:
  "Py_CombineGrids fan_out_example 2 = (Inr 4, fan_out_result) \<and>
   1 < length (dst_wgt fan_out_example) \<and>
   matches_at 1 (match_events fan_out_example 2) = 1 \<and>
   dst_wgt fan_out_result ! 1 = dst_wgt fan_out_example ! 1 + src_wgt fan_out_example ! 1 \<and>
   dst_wgt fan_out_result ! 1 \<noteq> dst_wgt fan_out_example ! 1 + src_wgt fan_out_example ! 0 \<and>
   dst_wgt fan_out_result ! 1 \<noteq> dst_wgt fan_out_example ! 1 + dst_wgt fan_out_example ! 1"
proof -
  have len: "1 < length (dst_wgt fan_out_example)" by (simp add: fan_out_example_def)
  have m: "matches_at 1 (match_events fan_out_example 2) = 1"
    by (simp add: fan_out_events matches_at_def)
  from merge_weight_addend[OF fan_out_call len] m len show ?thesis
    by (simp add: fan_out_call) (simp add: fan_out_example_def fan_out_result_def)
qed

subsection \<open>Mask combination\<close>












subsection \<open>Return value and fan-out\<close>

text \<open>
  Claim C4.  A call that completes returns the number of match events, each a source
  point, a sub-offset and a destination point, as a C \<^verbatim>\<open>int\<close>: it is that number
  itself whenever the number is below \<open>2^31\<close>.  With a refinement factor other than 1
  the events are exactly the tuples of a valid source point, a sub-offset in
  \<open>[0, r) \<times> [0, r)\<close> and a valid destination point on the fine coordinate.  In the
  worked call, with refinement factor 2, the one source point that matches does so at
  four destination points, one per sub-offset, and the call returns 4, not 1.
\<close>

theorem merge_count:
  assumes "Py_CombineGrids g r = (Inr n, g')"
  shows "n = of_nat (length (match_events g r)) \<and>
         (length (match_events g r) < 2 ^ 31 \<longrightarrow> sint n = int (length (match_events g r))) \<and>
         (r \<noteq> 1 \<longrightarrow> length (match_events g r) =
            card {(si, x_off, y_off, di). si < length (src_x g) \<and> \<not> src_x g ! si <s 0 \<and>
              x_off < nat (sint r) \<and> y_off < nat (sint r) \<and> di < length (dst_x g) \<and>
              coordinate_match g (scast r * src_x g ! si + of_nat x_off)
                (scast r * src_y g ! si + of_nat y_off) di})"
proof -
  have n: "n = of_nat (length (match_events g r))"
    using run_events_count[OF Py_CombineGrids_Inr(1)[OF assms]] by simp
  have "sint (word_of_nat k :: c_int) = int k" if "k < 2 ^ 31" for k
    using that by (simp add: signed_of_nat signed_take_bit_int_eq_self)
  moreover have "length (match_events g r) = card (set (match_events g r))"
    using distinct_match_events[of g r] by (simp add: distinct_card)
  ultimately show ?thesis using n match_events_set[of r g] by auto
qed

theorem merge_count_witness:
  "Py_CombineGrids fan_out_example 2 = (Inr 4, fan_out_result) \<and>
   match_events fan_out_example 2 = [(0, 0, 0, 0), (0, 0, 1, 1), (0, 1, 0, 2), (0, 1, 1, 3)] \<and>
   (4 :: c_int) = of_nat (length (match_events fan_out_example 2)) \<and>
   length (match_events fan_out_example 2) < 2 ^ 31 \<and>
   sint (4 :: c_int) = int (length (match_events fan_out_example 2)) \<and>
   (2 :: c_int) \<noteq> 1 \<and> card (fst ` set (match_events fan_out_example 2)) = 1"
proof -
  from merge_count[OF fan_out_call]
  have "(4 :: c_int) = of_nat (length (match_events fan_out_example 2))"
    and "length (match_events fan_out_example 2) < 2 ^ 31 \<longrightarrow>
         sint (4 :: c_int) = int (length (match_events fan_out_example 2))"
    by blast+
  moreover have "length (match_events fan_out_example 2) < 2 ^ 31"
    and "card (fst ` set (match_events fan_out_example 2)) = 1"
    by (simp_all add: fan_out_events)
  ultimately show ?thesis using fan_out_call fan_out_events by simp
qed

subsection \<open>The consumed-source sentinel\<close>





section \<open>Properties of DataCubeRefine and DataCubeReplace\<close>

lemma run_visits_append:
  "run_visits to_call a (vs @ ws) s = run_visits to_call a ws (run_visits to_call a vs s)"
  by (simp add: run_visits_def)

lemma run_visits_Nil: "run_visits to_call a [] s = s"
  by (simp add: run_visits_def)

lemma fold_visit_box:
  "fold (visit to_call a gc) box s = run_visits to_call a (map (Pair gc) box) s"
  by (simp add: run_visits_def fold_map comp_def)

lemma zg_loop_visits:
  assumes "\<forall>zg \<in> set zgs. offset3 (g_cm a) xg yg zg < length (data (g_cm a))"
    and "data (c_dx a) ! 2 \<noteq> 0"
  shows "zg_loop to_call a ll xg yg bx by zgs s = Inr (run_visits to_call a (z_visits a ll xg yg bx by zgs) s)"
  using assms(1)
proof (induction zgs arbitrary: s)
  case Nil
  show ?case by (simp add: z_visits_def run_visits_Nil)
next
  case (Cons zg zgs)
  have split: "z_visits a ll xg yg bx by (zg # zgs) =
      (if (ll = 0 \<and> data (g_cm a) ! offset3 (g_cm a) xg yg zg = 0) \<or> cell_outside a 2 zg then []
       else map (Pair (xg, yg, zg)) (cube_box bx by (cmin a 2 zg, cmax a 2 zg))) @ z_visits a ll xg yg bx by zgs"
    by (simp add: z_visits_def)
  from Cons.prems have ib: "offset3 (g_cm a) xg yg zg < length (data (g_cm a))"
    and rest: "\<forall>zg \<in> set zgs. offset3 (g_cm a) xg yg zg < length (data (g_cm a))" by simp_all
  have step: "zg_loop to_call a ll xg yg bx by (zg # zgs) s =
      zg_loop to_call a ll xg yg bx by zgs (run_visits to_call a
        (if (ll = 0 \<and> data (g_cm a) ! offset3 (g_cm a) xg yg zg = 0) \<or> cell_outside a 2 zg then []
         else map (Pair (xg, yg, zg)) (cube_box bx by (cmin a 2 zg, cmax a 2 zg))) s)"
    using ib assms(2) by (simp add: run_visits_Nil fold_visit_box)
  show ?case
    by (simp only: step split run_visits_append Cons.IH[OF rest])
qed

lemma yg_loop_visits:
  assumes "\<forall>yg \<in> set ygs. \<forall>zg < dimensions (g_data a) ! 2. offset3 (g_cm a) xg yg zg < length (data (g_cm a))"
    and "data (c_dx a) ! 2 \<noteq> 0" and "data (c_dx a) ! 1 \<noteq> 0"
  shows "yg_loop to_call a ll xg bx ygs s = Inr (run_visits to_call a (y_visits a ll xg bx ygs) s)"
  using assms(1)
proof (induction ygs arbitrary: s)
  case Nil
  show ?case by (simp add: y_visits_def run_visits_Nil)
next
  case (Cons yg ygs)
  have split: "y_visits a ll xg bx (yg # ygs) =
      (if cell_outside a 1 yg then []
       else z_visits a ll xg yg bx (cmin a 1 yg, cmax a 1 yg) [0..<dimensions (g_data a) ! 2]) @ y_visits a ll xg bx ygs"
    by (simp add: y_visits_def)
  from Cons.prems have z: "\<forall>zg \<in> set [0..<dimensions (g_data a) ! 2]. offset3 (g_cm a) xg yg zg < length (data (g_cm a))"
    and rest: "\<forall>yg \<in> set ygs. \<forall>zg < dimensions (g_data a) ! 2. offset3 (g_cm a) xg yg zg < length (data (g_cm a))"
    by simp_all
  show ?case
    using assms(3) Cons.IH[OF rest] zg_loop_visits[OF z assms(2)]
    by (simp add: split run_visits_append run_visits_Nil)
qed

lemma xg_loop_visits:
  assumes "\<forall>xg \<in> set xgs. \<forall>yg < dimensions (g_data a) ! 1. \<forall>zg < dimensions (g_data a) ! 2.
      offset3 (g_cm a) xg yg zg < length (data (g_cm a))"
    and "data (c_dx a) ! 2 \<noteq> 0" and "data (c_dx a) ! 1 \<noteq> 0" and "data (c_dx a) ! 0 \<noteq> 0"
  shows "xg_loop to_call a ll xgs s = Inr (run_visits to_call a (x_visits a ll xgs) s)"
  using assms(1)
proof (induction xgs arbitrary: s)
  case Nil
  show ?case by (simp add: x_visits_def run_visits_Nil)
next
  case (Cons xg xgs)
  have split: "x_visits a ll (xg # xgs) =
      (if cell_outside a 0 xg then []
       else y_visits a ll xg (cmin a 0 xg, cmax a 0 xg) [0..<dimensions (g_data a) ! 1]) @ x_visits a ll xgs"
    by (simp add: x_visits_def)
  from Cons.prems have y: "\<forall>yg \<in> set [0..<dimensions (g_data a) ! 1]. \<forall>zg < dimensions (g_data a) ! 2.
      offset3 (g_cm a) xg yg zg < length (data (g_cm a))"
    and rest: "\<forall>xg \<in> set xgs. \<forall>yg < dimensions (g_data a) ! 1. \<forall>zg < dimensions (g_data a) ! 2.
      offset3 (g_cm a) xg yg zg < length (data (g_cm a))"
    by simp_all
  show ?case
    using assms(4) Cons.IH[OF rest] yg_loop_visits[OF y assms(2,3)]
    by (simp add: split run_visits_append run_visits_Nil)
qed

lemma cube_loops_visits:
  assumes "cube_defined a"
  shows "xg_loop to_call a ll [0..<dimensions (g_data a) ! 0] s = Inr (run_visits to_call a (cube_visits a ll) s)"
  unfolding cube_visits_def
  using assms by (intro xg_loop_visits) (auto simp: cube_defined_def)

lemma zg_loop_Inr:
  "zg_loop to_call a ll xg yg bx by zgs s = Inr s' \<Longrightarrow>
     s' = run_visits to_call a (z_visits a ll xg yg bx by zgs) s"
proof (induction zgs arbitrary: s)
  case Nil
  then show ?case by (simp add: z_visits_def run_visits_Nil)
next
  case (Cons zg zgs)
  let ?v = "if (ll = 0 \<and> data (g_cm a) ! offset3 (g_cm a) xg yg zg = 0) \<or> cell_outside a 2 zg then []
       else map (Pair (xg, yg, zg)) (cube_box bx by (cmin a 2 zg, cmax a 2 zg))"
  have split: "z_visits a ll xg yg bx by (zg # zgs) = ?v @ z_visits a ll xg yg bx by zgs"
    by (simp add: z_visits_def)
  from Cons.prems have "zg_loop to_call a ll xg yg bx by zgs (run_visits to_call a ?v s) = Inr s'"
    by (auto simp: run_visits_Nil fold_visit_box split: if_splits)
  from Cons.IH[OF this] show ?case
    by (simp only: split run_visits_append)
qed

lemma yg_loop_Inr:
  "yg_loop to_call a ll xg bx ygs s = Inr s' \<Longrightarrow>
     s' = run_visits to_call a (y_visits a ll xg bx ygs) s"
proof (induction ygs arbitrary: s)
  case Nil
  then show ?case by (simp add: y_visits_def run_visits_Nil)
next
  case (Cons yg ygs)
  let ?v = "if cell_outside a 1 yg then []
       else z_visits a ll xg yg bx (cmin a 1 yg, cmax a 1 yg) [0..<dimensions (g_data a) ! 2]"
  have split: "y_visits a ll xg bx (yg # ygs) = ?v @ y_visits a ll xg bx ygs"
    by (simp add: y_visits_def)
  from Cons.prems have "yg_loop to_call a ll xg bx ygs (run_visits to_call a ?v s) = Inr s'"
    by (auto simp: run_visits_Nil split: if_splits sum.splits dest!: zg_loop_Inr)
  from Cons.IH[OF this] show ?case
    by (simp only: split run_visits_append)
qed

lemma xg_loop_Inr:
  "xg_loop to_call a ll xgs s = Inr s' \<Longrightarrow>
     s' = run_visits to_call a (x_visits a ll xgs) s"
proof (induction xgs arbitrary: s)
  case Nil
  then show ?case by (simp add: x_visits_def run_visits_Nil)
next
  case (Cons xg xgs)
  let ?v = "if cell_outside a 0 xg then []
       else y_visits a ll xg (cmin a 0 xg, cmax a 0 xg) [0..<dimensions (g_data a) ! 1]"
  have split: "x_visits a ll (xg # xgs) = ?v @ x_visits a ll xgs"
    by (simp add: x_visits_def)
  from Cons.prems have "xg_loop to_call a ll xgs (run_visits to_call a ?v s) = Inr s'"
    by (auto simp: run_visits_Nil split: if_splits sum.splits dest!: yg_loop_Inr)
  from Cons.IH[OF this] show ?case
    by (simp only: split run_visits_append)
qed

lemma DataCubeGeneric_Inr:
  assumes "DataCubeGeneric to_call a ll = (Inr t, a')"
  shows "a' = with_buffers a (run_visits to_call a (cube_visits a ll) (cube_start a))"
    and "t = snd (snd (run_visits to_call a (cube_visits a ll) (cube_start a)))"
proof -
  from assms obtain s where s: "xg_loop to_call a ll [0..<dimensions (g_data a) ! 0]
(cube_start a) = Inr s" and r: "t = snd (snd s)" "a' = with_buffers a s"
    unfolding DataCubeGeneric_def by (auto split: if_splits sum.splits prod.splits)
  from xg_loop_Inr[OF s] r show "a' = with_buffers a (run_visits to_call a (cube_visits a ll) (cube_start a))"
    and "t = snd (snd (run_visits to_call a (cube_visits a ll) (cube_start a)))"
    by (simp_all add: cube_visits_def)
qed

lemma visit_dcRefine:
  "visit dcRefine a gc cc (gd, cd, t) = (gd, cd[cube_offset a cc := gd ! grid_offset a gc], t + 1)"
  by (simp add: visit_def dcRefine_def)

lemma visit_dcReplace:
  "visit dcReplace a gc cc (gd, cd, t) = (gd[grid_offset a gc := cd ! cube_offset a cc], cd, t + 1)"
  by (simp add: visit_def dcReplace_def)

lemma run_visits_Cons:
  "run_visits to_call a ((gc, cc) # vs) s = run_visits to_call a vs (visit to_call a gc cc s)"
  by (simp add: run_visits_def)

lemma visit_total: "snd (snd (visit to_call a gc cc s)) = snd (snd s) + 1"
  by (cases s) (simp add: visit_def Let_def split: prod.splits)

lemma run_visits_total:
  "snd (snd (run_visits to_call a vs s)) = snd (snd s) + int (length vs)"
proof (induction vs arbitrary: s)
  case Nil
  show ?case by (simp add: run_visits_Nil)
next
  case (Cons v vs)
  obtain gc cc where v: "v = (gc, cc)" by (cases v) auto
  show ?case using Cons.IH[of "visit to_call a gc cc s"]
    by (simp add: v run_visits_Cons visit_total)
qed

lemma run_visits_dcRefine_grid:
  "fst (run_visits dcRefine a vs (gd, cd, t)) = gd"
proof (induction vs arbitrary: cd t)
  case Nil
  show ?case by (simp add: run_visits_Nil)
next
  case (Cons v vs)
  obtain gc cc where v: "v = (gc, cc)" by (cases v) auto
  show ?case using Cons.IH by (simp add: v run_visits_Cons visit_dcRefine)
qed

lemma run_visits_dcReplace_cube:
  "fst (snd (run_visits dcReplace a vs (gd, cd, t))) = cd"
proof (induction vs arbitrary: gd t)
  case Nil
  show ?case by (simp add: run_visits_Nil)
next
  case (Cons v vs)
  obtain gc cc where v: "v = (gc, cc)" by (cases v) auto
  show ?case using Cons.IH by (simp add: v run_visits_Cons visit_dcReplace)
qed

lemma with_buffers_simps:
  "g_le (with_buffers a s) = g_le a" "g_dx (with_buffers a s) = g_dx a"
  "g_cm (with_buffers a s) = g_cm a" "c_le (with_buffers a s) = c_le a"
  "c_re (with_buffers a s) = c_re a" "c_dx (with_buffers a s) = c_dx a"
  "dimensions (g_data (with_buffers a s)) = dimensions (g_data a)"
  "dimensions (c_data (with_buffers a s)) = dimensions (c_data a)"
  "data (g_data (with_buffers a s)) = fst s"
  "data (c_data (with_buffers a s)) = fst (snd s)"
  by (cases s; simp add: with_buffers_def)+

lemma with_buffers_cong:
  "cell_outside (with_buffers a s) = cell_outside a"
  "cmin (with_buffers a s) = cmin a"
  "cmax (with_buffers a s) = cmax a"
  "grid_offset (with_buffers a s) = grid_offset a"
  "cube_offset (with_buffers a s) = cube_offset a"
  by (intro ext; simp add: cell_outside_def cmin_def cmax_def cube_coordinate_def cell_face_def
      grid_offset_def cube_offset_def offset3_def with_buffers_simps)+

lemma with_buffers_z_visits: "z_visits (with_buffers a s) = z_visits a"
  by (intro ext) (simp add: z_visits_def with_buffers_cong with_buffers_simps cong: if_cong)

lemma with_buffers_y_visits: "y_visits (with_buffers a s) = y_visits a"
  by (intro ext) (simp add: y_visits_def with_buffers_z_visits with_buffers_cong with_buffers_simps cong: if_cong)

lemma with_buffers_x_visits: "x_visits (with_buffers a s) = x_visits a"
  by (intro ext) (simp add: x_visits_def with_buffers_y_visits with_buffers_cong with_buffers_simps cong: if_cong)

lemma with_buffers_visits: "cube_visits (with_buffers a s) ll = cube_visits a ll"
  by (simp add: cube_visits_def with_buffers_x_visits with_buffers_simps)

lemma with_buffers_visit: "visit to_call (with_buffers a s) = visit to_call a"
  by (intro ext) (simp add: visit_def with_buffers_cong)

lemma with_buffers_run: "run_visits to_call (with_buffers a s) = run_visits to_call a"
  by (intro ext) (simp add: run_visits_def with_buffers_visit)

lemma exact_coordinate:
  assumes "exact_axis a k" and "n \<le> dimensions (g_data a) ! k"
  shows "cube_coordinate a k n =
     (data (g_le a) ! k + data (g_dx a) ! k * real n - data (c_le a) ! k) / data (c_dx a) ! k"
  using assms unfolding exact_axis_def cube_coordinate_def cell_face_def by simp

lemma box_axis:
  assumes "data (g_le a) ! k = data (c_le a) ! k" "data (g_dx a) ! k = data (c_dx a) ! k"
    and "exact_axis a k" and "n < dimensions (g_data a) ! k"
    and "x \<in> set [nat (cmin a k n)..<nat (cmax a k n)]"
  shows "x = n"
proof (cases "data (c_dx a) ! k = 0")
  case True
  have "cube_coordinate a k n = 0" "cube_coordinate a k (n + 1) = 0"
    using exact_coordinate[OF assms(3), of n] exact_coordinate[OF assms(3), of "n + 1"] assms(4) True
    by simp_all
  with assms(5) show ?thesis by (simp add: cmin_def cmax_def)
next
  case False
  have lo: "cube_coordinate a k n = real n"
    using exact_coordinate[OF assms(3), of n] assms(1,2,4) False by simp
  have hi: "cube_coordinate a k (n + 1) = real (n + 1)"
    using exact_coordinate[OF assms(3), of "n + 1"] assms(1,2,4) False by simp
  have "cmin a k n = int n" unfolding cmin_def lo floor_of_nat by simp
  moreover have "cmax a k n \<le> int n + 1" unfolding cmax_def hi ceiling_of_nat by simp
  ultimately show ?thesis using assms(5) by auto
qed

lemma cube_box_mem:
  "(xc, yc, zc) \<in> set (cube_box bx by bz) \<longleftrightarrow>
     xc \<in> set [nat (fst bx)..<nat (snd bx)] \<and> yc \<in> set [nat (fst by)..<nat (snd by)] \<and>
     zc \<in> set [nat (fst bz)..<nat (snd bz)]"
  by (force simp: cube_box_def)

lemma z_visits_mem:
  assumes "(gc, cc) \<in> set (z_visits a ll xg yg bx by zgs)"
  shows "\<exists>zg xc yc zc. gc = (xg, yg, zg) \<and> cc = (xc, yc, zc) \<and> zg \<in> set zgs \<and>
     \<not> (ll = 0 \<and> data (g_cm a) ! offset3 (g_cm a) xg yg zg = 0) \<and> \<not> cell_outside a 2 zg \<and>
     xc \<in> set [nat (fst bx)..<nat (snd bx)] \<and> yc \<in> set [nat (fst by)..<nat (snd by)] \<and>
     zc \<in> set [nat (cmin a 2 zg)..<nat (cmax a 2 zg)]"
proof -
  from assms obtain zg where zg: "zg \<in> set zgs"
    "\<not> ((ll = 0 \<and> data (g_cm a) ! offset3 (g_cm a) xg yg zg = 0) \<or> cell_outside a 2 zg)"
    "(gc, cc) \<in> set (map (Pair (xg, yg, zg)) (cube_box bx by (cmin a 2 zg, cmax a 2 zg)))"
    unfolding z_visits_def by (auto split: if_splits)
  obtain xc yc zc where cc: "cc = (xc, yc, zc)" by (cases cc) auto
  from zg(3) have "gc = (xg, yg, zg)" "(xc, yc, zc) \<in> set (cube_box bx by (cmin a 2 zg, cmax a 2 zg))"
    by (auto simp: cc)
  with zg(1,2) cc show ?thesis by (auto simp: cube_box_mem)
qed

lemma y_visits_mem:
  assumes "(gc, cc) \<in> set (y_visits a ll xg bx ygs)"
  shows "\<exists>yg zg xc yc zc. gc = (xg, yg, zg) \<and> cc = (xc, yc, zc) \<and> yg \<in> set ygs \<and>
     zg < dimensions (g_data a) ! 2 \<and> \<not> cell_outside a 1 yg \<and>
     \<not> (ll = 0 \<and> data (g_cm a) ! offset3 (g_cm a) xg yg zg = 0) \<and> \<not> cell_outside a 2 zg \<and>
     xc \<in> set [nat (fst bx)..<nat (snd bx)] \<and> yc \<in> set [nat (cmin a 1 yg)..<nat (cmax a 1 yg)] \<and>
     zc \<in> set [nat (cmin a 2 zg)..<nat (cmax a 2 zg)]"
proof -
  from assms obtain yg where yg: "yg \<in> set ygs" "\<not> cell_outside a 1 yg"
    "(gc, cc) \<in> set (z_visits a ll xg yg bx (cmin a 1 yg, cmax a 1 yg) [0..<dimensions (g_data a) ! 2])"
    unfolding y_visits_def by (auto split: if_splits)
  from z_visits_mem[OF yg(3)] yg(1,2) show ?thesis by auto
qed

lemma x_visits_mem:
  assumes "(gc, cc) \<in> set (x_visits a ll xgs)"
  shows "\<exists>xg yg zg xc yc zc. gc = (xg, yg, zg) \<and> cc = (xc, yc, zc) \<and> xg \<in> set xgs \<and>
     yg < dimensions (g_data a) ! 1 \<and> zg < dimensions (g_data a) ! 2 \<and>
     \<not> cell_outside a 0 xg \<and> \<not> cell_outside a 1 yg \<and> \<not> cell_outside a 2 zg \<and>
     \<not> (ll = 0 \<and> data (g_cm a) ! offset3 (g_cm a) xg yg zg = 0) \<and>
     xc \<in> set [nat (cmin a 0 xg)..<nat (cmax a 0 xg)] \<and> yc \<in> set [nat (cmin a 1 yg)..<nat (cmax a 1 yg)] \<and>
     zc \<in> set [nat (cmin a 2 zg)..<nat (cmax a 2 zg)]"
proof -
  from assms obtain xg where xg: "xg \<in> set xgs" "\<not> cell_outside a 0 xg"
    "(gc, cc) \<in> set (y_visits a ll xg (cmin a 0 xg, cmax a 0 xg) [0..<dimensions (g_data a) ! 1])"
    unfolding x_visits_def by (auto split: if_splits)
  from y_visits_mem[OF xg(3)] xg(1,2) show ?thesis by auto
qed

lemma coincident_visits:
  assumes "coincident a" and "exact_geometry a" and "(gc, cc) \<in> set (cube_visits a ll)"
  shows "cc = gc" and "cube_offset a cc = grid_offset a gc"
proof -
  from x_visits_mem[OF assms(3)[unfolded cube_visits_def]] obtain xg yg zg xc yc zc where
    v: "gc = (xg, yg, zg)" "cc = (xc, yc, zc)"
      "xg < dimensions (g_data a) ! 0" "yg < dimensions (g_data a) ! 1" "zg < dimensions (g_data a) ! 2"
      "xc \<in> set [nat (cmin a 0 xg)..<nat (cmax a 0 xg)]" "yc \<in> set [nat (cmin a 1 yg)..<nat (cmax a 1 yg)]"
      "zc \<in> set [nat (cmin a 2 zg)..<nat (cmax a 2 zg)]"
    by auto
  from assms(1) have e: "\<And>k. k < 3 \<Longrightarrow> data (g_le a) ! k = data (c_le a) ! k"
    "\<And>k. k < 3 \<Longrightarrow> data (g_dx a) ! k = data (c_dx a) ! k"
    and d: "dimensions (g_data a) = dimensions (c_data a)"
    by (simp_all add: coincident_def)
  from assms(2) have x: "exact_axis a 0" "exact_axis a 1" "exact_axis a 2"
    by (simp_all add: exact_geometry_def)
  have "xc = xg" using box_axis[OF e(1) e(2) x(1) v(3) v(6)] by simp
  moreover have "yc = yg" using box_axis[OF e(1) e(2) x(2) v(4) v(7)] by simp
  moreover have "zc = zg" using box_axis[OF e(1) e(2) x(3) v(5) v(8)] by simp
  ultimately show "cc = gc" by (simp add: v)
  then show "cube_offset a cc = grid_offset a gc"
    by (simp add: v cube_offset_def grid_offset_def offset3_def d)
qed

lemma replace_pass:
  assumes "\<forall>(gc, cc) \<in> set vs. cube_offset a cc = grid_offset a gc"
  shows "\<exists>gd' t'. run_visits dcReplace a vs (gd, cd, t) = (gd', cd, t') \<and> length gd' = length gd \<and>
     (\<forall>(gc, cc) \<in> set vs. grid_offset a gc < length gd \<longrightarrow> gd' ! grid_offset a gc = cd ! grid_offset a gc)"
  using assms
proof (induction vs arbitrary: gd t)
  case Nil
  show ?case by (simp add: run_visits_Nil)
next
  case (Cons v vs)
  obtain gc cc where v: "v = (gc, cc)" by (cases v) auto
  let ?o = "grid_offset a gc"
  from Cons.prems v have o: "cube_offset a cc = ?o"
    and rest: "\<forall>(gc, cc) \<in> set vs. cube_offset a cc = grid_offset a gc" by auto
  from Cons.IH[OF rest, of "gd[?o := cd ! ?o]" "t + 1"] obtain gd' t' where
    r: "run_visits dcReplace a vs (gd[?o := cd ! ?o], cd, t + 1) = (gd', cd, t')"
      "length gd' = length gd"
      "\<forall>(gc, cc) \<in> set vs. grid_offset a gc < length gd \<longrightarrow> gd' ! grid_offset a gc = cd ! grid_offset a gc"
    by auto
  have here: "gd' ! ?o = cd ! ?o" if "?o < length gd"
  proof (cases "?o \<in> (\<lambda>(gc, cc). grid_offset a gc) ` set vs")
    case True
    with r(3) that show ?thesis by auto
  next
    case False
    have "\<And>gd t gd' t'. run_visits dcReplace a vs (gd, cd, t) = (gd', cd, t') \<Longrightarrow>
        ?o \<notin> (\<lambda>(gc, cc). grid_offset a gc) ` set vs \<Longrightarrow> gd' ! ?o = gd ! ?o"
    proof (induction vs)
      case Nil
      then show ?case by (simp add: run_visits_Nil)
    next
      case (Cons w ws)
      obtain gc' cc' where w: "w = (gc', cc')" by (cases w) auto
      from Cons.prems(2) w have ne: "grid_offset a gc' \<noteq> ?o"
        and nin: "?o \<notin> (\<lambda>(gc, cc). grid_offset a gc) ` set ws" by auto
      from Cons.IH[OF _ nin, of "gd[grid_offset a gc' := cd ! cube_offset a cc']" "t + 1" gd' t']
        Cons.prems(1) ne
      show ?case by (simp add: w run_visits_Cons visit_dcReplace)
    qed
    from this[OF r(1) False] that show ?thesis by simp
  qed
  show ?case
    using r here by (auto simp: v o run_visits_Cons visit_dcReplace)
qed

lemma refine_pass:
  assumes "\<forall>(gc, cc) \<in> set vs. cube_offset a cc < length cd \<longrightarrow> gd ! grid_offset a gc = cd ! cube_offset a cc"
  shows "run_visits dcRefine a vs (gd, cd, t) = (gd, cd, t + int (length vs))"
  using assms
proof (induction vs arbitrary: t)
  case Nil
  show ?case by (simp add: run_visits_Nil)
next
  case (Cons v vs)
  obtain gc cc where v: "v = (gc, cc)" by (cases v) auto
  have "cd[cube_offset a cc := gd ! grid_offset a gc] = cd"
  proof (cases "cube_offset a cc < length cd")
    case True
    with Cons.prems v have "gd ! grid_offset a gc = cd ! cube_offset a cc" by auto
    then show ?thesis by simp
  next
    case False
    then show ?thesis by (simp add: list_update_beyond)
  qed
  moreover from Cons.prems have "\<forall>(gc, cc) \<in> set vs. cube_offset a cc < length cd \<longrightarrow>
      gd ! grid_offset a gc = cd ! cube_offset a cc" by simp
  ultimately show ?case using Cons.IH[of "t + 1"]
    by (simp add: v run_visits_Cons visit_dcRefine)
qed

text \<open>
  Evaluation of the rounding and of the cell geometry on given numbers: the fuel of
  \<open>binade\<close> is a numeral, and the index bounds of a grid cell are computed once for
  each worked example.
\<close>

lemma binade_numeral:
  "binade (numeral k) x =
     (if 2 \<le> x then binade (pred_numeral k) (x / 2) + 1
      else if x < 1 then binade (pred_numeral k) (x * 2) - 1
      else 0)"
  by (simp add: numeral_eq_Suc)

lemmas binary64_eval = binary64_def binade_numeral round_even_def Let_def

lemmas geometry_eval = cell_outside_def cmin_def cmax_def cube_coordinate_def cell_face_def

lemmas loops_eval =
  cube_box_def visit_def cube_offset_def grid_offset_def offset3_def cube_start_def
  dcRefine_def dcReplace_def upt_conv_Cons

lemma binary64_0: "binary64 0 = 0"
  by (simp add: binary64_def)

lemma binary64_1: "binary64 1 = 1"
  by (simp add: binary64_eval)

lemma binary64_2: "binary64 2 = 2"
  by (simp add: binary64_eval)

lemma pair_cube_fields:
  "g_data pair_cube = \<lparr>dimensions = [2, 1, 1], data = [7, 8]\<rparr>"
  "g_cm pair_cube = \<lparr>dimensions = [2, 1, 1], data = [1, 0]\<rparr>"
  "c_data pair_cube = \<lparr>dimensions = [2, 1, 1], data = [9, 10]\<rparr>"
  "data (c_dx pair_cube) = [1, 1, 1]"
  "g_data pair_cube_replaced = \<lparr>dimensions = [2, 1, 1], data = [9, 8]\<rparr>"
  "g_cm pair_cube_replaced = \<lparr>dimensions = [2, 1, 1], data = [1, 0]\<rparr>"
  "c_data pair_cube_replaced = \<lparr>dimensions = [2, 1, 1], data = [9, 10]\<rparr>"
  "data (c_dx pair_cube_replaced) = [1, 1, 1]"
  by (simp_all add: pair_cube_def pair_cube_replaced_def)

lemma pair_cube_checks:
  "length (dimensions (g_le pair_cube)) = 1" "PyArray_SIZE (g_le pair_cube) = 3"
  "length (dimensions (g_dx pair_cube)) = 1" "PyArray_SIZE (g_dx pair_cube) = 3"
  "length (dimensions (c_le pair_cube)) = 1" "PyArray_SIZE (c_le pair_cube) = 3"
  "length (dimensions (c_re pair_cube)) = 1" "PyArray_SIZE (c_re pair_cube) = 3"
  "length (dimensions (c_dx pair_cube)) = 1" "PyArray_SIZE (c_dx pair_cube) = 3"
  "length (dimensions (g_le pair_cube_replaced)) = 1" "PyArray_SIZE (g_le pair_cube_replaced) = 3"
  "length (dimensions (g_dx pair_cube_replaced)) = 1" "PyArray_SIZE (g_dx pair_cube_replaced) = 3"
  "length (dimensions (c_le pair_cube_replaced)) = 1" "PyArray_SIZE (c_le pair_cube_replaced) = 3"
  "length (dimensions (c_re pair_cube_replaced)) = 1" "PyArray_SIZE (c_re pair_cube_replaced) = 3"
  "length (dimensions (c_dx pair_cube_replaced)) = 1" "PyArray_SIZE (c_dx pair_cube_replaced) = 3"
  by (simp_all add: pair_cube_def pair_cube_replaced_def PyArray_SIZE_def)

lemma pair_cube_geometry:
  "\<not> cell_outside pair_cube 0 0" "cmin pair_cube 0 0 = 0" "cmax pair_cube 0 0 = 1"
  "\<not> cell_outside pair_cube 0 (Suc 0)" "cmin pair_cube 0 (Suc 0) = 1"
  "cmax pair_cube 0 (Suc 0) = 2"
  "\<not> cell_outside pair_cube (Suc 0) 0" "cmin pair_cube (Suc 0) 0 = 0"
  "cmax pair_cube (Suc 0) 0 = 1"
  "\<not> cell_outside pair_cube 2 0" "cmin pair_cube 2 0 = 0" "cmax pair_cube 2 0 = 1"
  by (simp_all add: geometry_eval pair_cube_def binary64_eval)

lemma pair_cube_replaced_geometry:
  "\<not> cell_outside pair_cube_replaced 0 0" "cmin pair_cube_replaced 0 0 = 0"
  "cmax pair_cube_replaced 0 0 = 1"
  "\<not> cell_outside pair_cube_replaced 0 (Suc 0)" "cmin pair_cube_replaced 0 (Suc 0) = 1"
  "cmax pair_cube_replaced 0 (Suc 0) = 2"
  "\<not> cell_outside pair_cube_replaced (Suc 0) 0" "cmin pair_cube_replaced (Suc 0) 0 = 0"
  "cmax pair_cube_replaced (Suc 0) 0 = 1"
  "\<not> cell_outside pair_cube_replaced 2 0" "cmin pair_cube_replaced 2 0 = 0"
  "cmax pair_cube_replaced 2 0 = 1"
  by (simp_all add: geometry_eval pair_cube_def pair_cube_replaced_def binary64_eval)

lemma pair_cube_refine:
  "Py_DataCubeRefine pair_cube 1 =
     (Inr 2, pair_cube\<lparr>c_data := \<lparr>dimensions = [2, 1, 1], data = [7, 8]\<rparr>\<rparr>)"
proof -
  have "xg_loop dcRefine pair_cube 1 [0..<2] (cube_start pair_cube) = Inr ([7, 8], [7, 8], 2)"
    by (simp add: loops_eval pair_cube_fields pair_cube_geometry)
  moreover have "with_buffers pair_cube ([7, 8], [7, 8], 2) =
      pair_cube\<lparr>c_data := \<lparr>dimensions = [2, 1, 1], data = [7, 8]\<rparr>\<rparr>"
    by (simp add: with_buffers_def pair_cube_def)
  ultimately show ?thesis
    by (simp add: Py_DataCubeRefine_def DataCubeGeneric_def pair_cube_checks pair_cube_fields)
qed

lemma pair_cube_replace:
  "Py_DataCubeReplace pair_cube 1 =
     (Inr 2, pair_cube\<lparr>g_data := \<lparr>dimensions = [2, 1, 1], data = [9, 10]\<rparr>\<rparr>)"
proof -
  have "xg_loop dcReplace pair_cube 1 [0..<2] (cube_start pair_cube) = Inr ([9, 10], [9, 10], 2)"
    by (simp add: loops_eval pair_cube_fields pair_cube_geometry)
  moreover have "with_buffers pair_cube ([9, 10], [9, 10], 2) =
      pair_cube\<lparr>g_data := \<lparr>dimensions = [2, 1, 1], data = [9, 10]\<rparr>\<rparr>"
    by (simp add: with_buffers_def pair_cube_def)
  ultimately show ?thesis
    by (simp add: Py_DataCubeReplace_def DataCubeGeneric_def pair_cube_checks pair_cube_fields)
qed

lemma pair_cube_visits: "cube_visits pair_cube 1 = [((0, 0, 0), (0, 0, 0)), ((1, 0, 0), (1, 0, 0))]"
  by (simp add: cube_visits_def x_visits_def y_visits_def z_visits_def cube_box_def offset3_def
      upt_conv_Cons pair_cube_fields pair_cube_geometry)

lemma pair_cube_coincident: "coincident pair_cube"
  by (simp add: coincident_def pair_cube_def less_Suc_eq numeral_3_eq_3)

lemma pair_cube_exact: "exact_geometry pair_cube"
proof -
  have x: "exact_axis pair_cube 0"
    unfolding exact_axis_def
  proof (intro allI impI)
    fix n assume "n \<le> dimensions (g_data pair_cube) ! 0"
    then have "n = 0 \<or> n = 1 \<or> n = 2" by (auto simp: pair_cube_def)
    then show "binary64 (data (g_dx pair_cube) ! 0 * real n) = data (g_dx pair_cube) ! 0 * real n \<and>
        binary64 (data (g_le pair_cube) ! 0 + data (g_dx pair_cube) ! 0 * real n) =
          data (g_le pair_cube) ! 0 + data (g_dx pair_cube) ! 0 * real n \<and>
        binary64 (data (g_le pair_cube) ! 0 + data (g_dx pair_cube) ! 0 * real n - data (c_le pair_cube) ! 0) =
          data (g_le pair_cube) ! 0 + data (g_dx pair_cube) ! 0 * real n - data (c_le pair_cube) ! 0 \<and>
        binary64 ((data (g_le pair_cube) ! 0 + data (g_dx pair_cube) ! 0 * real n - data (c_le pair_cube) ! 0) /
            data (c_dx pair_cube) ! 0) =
          (data (g_le pair_cube) ! 0 + data (g_dx pair_cube) ! 0 * real n - data (c_le pair_cube) ! 0) /
            data (c_dx pair_cube) ! 0"
      by (auto simp: pair_cube_def binary64_0 binary64_1 binary64_2)
  qed
  have y: "exact_axis pair_cube k" if "k = 1 \<or> k = 2" for k
    unfolding exact_axis_def
  proof (intro allI impI)
    fix n assume "n \<le> dimensions (g_data pair_cube) ! k"
    then have "n = 0 \<or> n = 1" using that by (auto simp: pair_cube_def)
    then show "binary64 (data (g_dx pair_cube) ! k * real n) = data (g_dx pair_cube) ! k * real n \<and>
        binary64 (data (g_le pair_cube) ! k + data (g_dx pair_cube) ! k * real n) =
          data (g_le pair_cube) ! k + data (g_dx pair_cube) ! k * real n \<and>
        binary64 (data (g_le pair_cube) ! k + data (g_dx pair_cube) ! k * real n - data (c_le pair_cube) ! k) =
          data (g_le pair_cube) ! k + data (g_dx pair_cube) ! k * real n - data (c_le pair_cube) ! k \<and>
        binary64 ((data (g_le pair_cube) ! k + data (g_dx pair_cube) ! k * real n - data (c_le pair_cube) ! k) /
            data (c_dx pair_cube) ! k) =
          (data (g_le pair_cube) ! k + data (g_dx pair_cube) ! k * real n - data (c_le pair_cube) ! k) /
            data (c_dx pair_cube) ! k"
      using that by (auto simp: pair_cube_def binary64_0 binary64_1)
  qed
  from x y[of 1] y[of 2] show ?thesis by (simp add: exact_geometry_def)
qed

lemma tenth_cube_coincident: "coincident tenth_cube"
  by (simp add: coincident_def tenth_cube_def less_Suc_eq numeral_3_eq_3)

lemma tenth_cube_fields:
  "g_data tenth_cube = \<lparr>dimensions = [2, 1, 1], data = [7, 8]\<rparr>"
  "g_cm tenth_cube = \<lparr>dimensions = [2, 1, 1], data = [1, 1]\<rparr>"
  "c_data tenth_cube = \<lparr>dimensions = [2, 1, 1], data = [9, 10]\<rparr>"
  "data (c_dx tenth_cube) = [3602879701896397 / 36028797018963968, 1, 1]"
  "g_data tenth_cube_replaced = \<lparr>dimensions = [2, 1, 1], data = [10, 10]\<rparr>"
  "g_cm tenth_cube_replaced = \<lparr>dimensions = [2, 1, 1], data = [1, 1]\<rparr>"
  "c_data tenth_cube_replaced = \<lparr>dimensions = [2, 1, 1], data = [9, 10]\<rparr>"
  "data (c_dx tenth_cube_replaced) = [3602879701896397 / 36028797018963968, 1, 1]"
  by (simp_all add: tenth_cube_def tenth_cube_replaced_def)

lemma tenth_cube_checks:
  "length (dimensions (g_le tenth_cube)) = 1" "PyArray_SIZE (g_le tenth_cube) = 3"
  "length (dimensions (g_dx tenth_cube)) = 1" "PyArray_SIZE (g_dx tenth_cube) = 3"
  "length (dimensions (c_le tenth_cube)) = 1" "PyArray_SIZE (c_le tenth_cube) = 3"
  "length (dimensions (c_re tenth_cube)) = 1" "PyArray_SIZE (c_re tenth_cube) = 3"
  "length (dimensions (c_dx tenth_cube)) = 1" "PyArray_SIZE (c_dx tenth_cube) = 3"
  "length (dimensions (g_le tenth_cube_replaced)) = 1" "PyArray_SIZE (g_le tenth_cube_replaced) = 3"
  "length (dimensions (g_dx tenth_cube_replaced)) = 1" "PyArray_SIZE (g_dx tenth_cube_replaced) = 3"
  "length (dimensions (c_le tenth_cube_replaced)) = 1" "PyArray_SIZE (c_le tenth_cube_replaced) = 3"
  "length (dimensions (c_re tenth_cube_replaced)) = 1" "PyArray_SIZE (c_re tenth_cube_replaced) = 3"
  "length (dimensions (c_dx tenth_cube_replaced)) = 1" "PyArray_SIZE (c_dx tenth_cube_replaced) = 3"
  by (simp_all add: tenth_cube_def tenth_cube_replaced_def PyArray_SIZE_def)

text \<open>
  On \<open>tenth_cube\<close> the right face of grid cell 0 on the first axis, \<open>0.2 + 0.1\<close>
  rounded, lies one unit in the last place above the left face of cube cell 1, so that
  its distance from the cube's left edge in cube cells rounds to a number above 1, and
  grid cell 0 covers the cube cells 0 and 1.
\<close>

lemma tenth_cube_geometry:
  "\<not> cell_outside tenth_cube 0 0" "cmin tenth_cube 0 0 = 0" "cmax tenth_cube 0 0 = 2"
  "\<not> cell_outside tenth_cube 0 (Suc 0)" "cmin tenth_cube 0 (Suc 0) = 1"
  "cmax tenth_cube 0 (Suc 0) = 2"
  "\<not> cell_outside tenth_cube (Suc 0) 0" "cmin tenth_cube (Suc 0) 0 = 0"
  "cmax tenth_cube (Suc 0) 0 = 1"
  "\<not> cell_outside tenth_cube 2 0" "cmin tenth_cube 2 0 = 0" "cmax tenth_cube 2 0 = 1"
  by (simp_all add: geometry_eval tenth_cube_def binary64_eval)

lemma tenth_cube_replaced_geometry:
  "\<not> cell_outside tenth_cube_replaced 0 0" "cmin tenth_cube_replaced 0 0 = 0"
  "cmax tenth_cube_replaced 0 0 = 2"
  "\<not> cell_outside tenth_cube_replaced 0 (Suc 0)" "cmin tenth_cube_replaced 0 (Suc 0) = 1"
  "cmax tenth_cube_replaced 0 (Suc 0) = 2"
  "\<not> cell_outside tenth_cube_replaced (Suc 0) 0" "cmin tenth_cube_replaced (Suc 0) 0 = 0"
  "cmax tenth_cube_replaced (Suc 0) 0 = 1"
  "\<not> cell_outside tenth_cube_replaced 2 0" "cmin tenth_cube_replaced 2 0 = 0"
  "cmax tenth_cube_replaced 2 0 = 1"
  by (simp_all add: geometry_eval tenth_cube_def tenth_cube_replaced_def binary64_eval)

lemma tenth_cube_replace: "Py_DataCubeReplace tenth_cube 1 = (Inr 3, tenth_cube_replaced)"
proof -
  have "xg_loop dcReplace tenth_cube 1 [0..<2] (cube_start tenth_cube) =
      Inr ([10, 10], [9, 10], 3)"
    by (simp add: loops_eval tenth_cube_fields tenth_cube_geometry)
  moreover have "with_buffers tenth_cube ([10, 10], [9, 10], 3) = tenth_cube_replaced"
    by (simp add: with_buffers_def tenth_cube_def tenth_cube_replaced_def)
  ultimately show ?thesis
    by (simp add: Py_DataCubeReplace_def DataCubeGeneric_def tenth_cube_checks tenth_cube_fields)
qed

lemma tenth_cube_refine: "Py_DataCubeRefine tenth_cube_replaced 1 = (Inr 3, tenth_cube_refined)"
proof -
  have "xg_loop dcRefine tenth_cube_replaced 1 [0..<2] (cube_start tenth_cube_replaced) =
      Inr ([10, 10], [10, 10], 3)"
    by (simp add: loops_eval tenth_cube_fields tenth_cube_replaced_geometry)
  moreover have "with_buffers tenth_cube_replaced ([10, 10], [10, 10], 3) = tenth_cube_refined"
    by (simp add: with_buffers_def tenth_cube_def tenth_cube_replaced_def tenth_cube_refined_def)
  ultimately show ?thesis
    by (simp add: Py_DataCubeRefine_def DataCubeGeneric_def tenth_cube_checks tenth_cube_fields)
qed

lemma pair_cube_replace_leaf: "Py_DataCubeReplace pair_cube 0 = (Inr 1, pair_cube_replaced)"
proof -
  have "xg_loop dcReplace pair_cube 0 [0..<2] (cube_start pair_cube) = Inr ([9, 8], [9, 10], 1)"
    by (simp add: loops_eval pair_cube_fields pair_cube_geometry)
  moreover have "with_buffers pair_cube ([9, 8], [9, 10], 1) = pair_cube_replaced"
    by (simp add: with_buffers_def pair_cube_def pair_cube_replaced_def)
  ultimately show ?thesis
    by (simp add: Py_DataCubeReplace_def DataCubeGeneric_def pair_cube_checks pair_cube_fields)
qed

lemma pair_cube_refine_leaf: "Py_DataCubeRefine pair_cube_replaced 0 = (Inr 1, pair_cube_replaced)"
proof -
  have "xg_loop dcRefine pair_cube_replaced 0 [0..<2] (cube_start pair_cube_replaced) =
      Inr ([9, 8], [9, 10], 1)"
    by (simp add: loops_eval pair_cube_fields pair_cube_replaced_geometry)
  moreover have "with_buffers pair_cube_replaced ([9, 8], [9, 10], 1) = pair_cube_replaced"
    by (simp add: with_buffers_def pair_cube_def pair_cube_replaced_def)
  ultimately show ?thesis
    by (simp add: Py_DataCubeRefine_def DataCubeGeneric_def pair_cube_checks pair_cube_fields)
qed

subsection \<open>Directions of the two rules\<close>

text \<open>
  Claim C2, as stated, has the two directions exchanged.  On the worked pair of grids,
  with every cell included, \<^verbatim>\<open>DataCubeRefine\<close> leaves the grid values \<open>[7, 8]\<close> as
  they are and writes them into the cube, and \<^verbatim>\<open>DataCubeReplace\<close> leaves the cube
  values \<open>[9, 10]\<close> as they are and writes them into the grid.
\<close>

theorem cube_rule_directions_counterexample:
  "data (g_data pair_cube) = [7, 8] \<and> data (c_data pair_cube) = [9, 10] \<and>
   Py_DataCubeRefine pair_cube 1 =
     (Inr 2, pair_cube\<lparr>c_data := \<lparr>dimensions = [2, 1, 1], data = [7, 8]\<rparr>\<rparr>) \<and>
   Py_DataCubeReplace pair_cube 1 =
     (Inr 2, pair_cube\<lparr>g_data := \<lparr>dimensions = [2, 1, 1], data = [9, 10]\<rparr>\<rparr>)"
  using pair_cube_refine pair_cube_replace by (simp add: pair_cube_def)

text \<open>
  Claim C2, amended.  For every pair of a grid cell \<open>gc\<close> and a cube cell \<open>cc\<close> that
  a call visits, with \<open>gd\<close> and \<open>cd\<close> the two buffers just before the visit: the
  refine rule (\<^verbatim>\<open>DataCubeRefine\<close>) overwrites the cube cell with the grid cell's value
  and leaves the grid as it is; the replace rule (\<^verbatim>\<open>DataCubeReplace\<close>) overwrites the
  grid cell with the cube cell's value and leaves the cube as it is.  The value written
  does not depend on the value it replaces.  A call that completes has run these visits
  in order, returns their number, and has not changed the grid (refine) or the cube
  (replace) at all.
\<close>

theorem cube_rule_directions:
  assumes "cube_visits a ll = pre @ (gc, cc) # post"
  shows "(\<forall>t a'. Py_DataCubeRefine a ll = (Inr t, a') \<longrightarrow>
            a' = with_buffers a (run_visits dcRefine a (cube_visits a ll) (cube_start a)) \<and>
            t = int (length (cube_visits a ll)) \<and> g_data a' = g_data a) \<and>
         (\<forall>gd cd n. run_visits dcRefine a pre (cube_start a) = (gd, cd, n) \<longrightarrow>
            run_visits dcRefine a (pre @ [(gc, cc)]) (cube_start a) =
              (gd, cd[cube_offset a cc := gd ! grid_offset a gc], n + 1)) \<and>
         (\<forall>t a'. Py_DataCubeReplace a ll = (Inr t, a') \<longrightarrow>
            a' = with_buffers a (run_visits dcReplace a (cube_visits a ll) (cube_start a)) \<and>
            t = int (length (cube_visits a ll)) \<and> c_data a' = c_data a) \<and>
         (\<forall>gd cd n. run_visits dcReplace a pre (cube_start a) = (gd, cd, n) \<longrightarrow>
            run_visits dcReplace a (pre @ [(gc, cc)]) (cube_start a) =
              (gd[grid_offset a gc := cd ! cube_offset a cc], cd, n + 1))"
proof -
  let ?s0 = "cube_start a"
  have refine: "a' = with_buffers a (run_visits dcRefine a (cube_visits a ll) ?s0) \<and>
      t = int (length (cube_visits a ll)) \<and> g_data a' = g_data a"
    if "Py_DataCubeRefine a ll = (Inr t, a')" for t a'
  proof -
    from that have c: "DataCubeGeneric dcRefine a ll = (Inr t, a')" by (simp add: Py_DataCubeRefine_def)
    note r = DataCubeGeneric_Inr[OF c]
    obtain gd cd n where s: "run_visits dcRefine a (cube_visits a ll) ?s0 = (gd, cd, n)"
      by (cases "run_visits dcRefine a (cube_visits a ll) ?s0") auto
    have "gd = data (g_data a)"
      using run_visits_dcRefine_grid[of a "cube_visits a ll" "data (g_data a)" "data (c_data a)" 0] s
      by (simp add: cube_start_def)
    then have "g_data a' = g_data a" using r(1) s by (simp add: with_buffers_def)
    moreover have "t = int (length (cube_visits a ll))"
      using r(2) run_visits_total[of dcRefine a "cube_visits a ll" ?s0] by (simp add: cube_start_def)
    ultimately show ?thesis using r(1) by simp
  qed
  have replace: "a' = with_buffers a (run_visits dcReplace a (cube_visits a ll) ?s0) \<and>
      t = int (length (cube_visits a ll)) \<and> c_data a' = c_data a"
    if "Py_DataCubeReplace a ll = (Inr t, a')" for t a'
  proof -
    from that have c: "DataCubeGeneric dcReplace a ll = (Inr t, a')" by (simp add: Py_DataCubeReplace_def)
    note r = DataCubeGeneric_Inr[OF c]
    obtain gd cd n where s: "run_visits dcReplace a (cube_visits a ll) ?s0 = (gd, cd, n)"
      by (cases "run_visits dcReplace a (cube_visits a ll) ?s0") auto
    have "cd = data (c_data a)"
      using run_visits_dcReplace_cube[of a "cube_visits a ll" "data (g_data a)" "data (c_data a)" 0] s
      by (simp add: cube_start_def)
    then have "c_data a' = c_data a" using r(1) s by (simp add: with_buffers_def)
    moreover have "t = int (length (cube_visits a ll))"
      using r(2) run_visits_total[of dcReplace a "cube_visits a ll" ?s0] by (simp add: cube_start_def)
    ultimately show ?thesis using r(1) by simp
  qed
  have "run_visits dcRefine a (pre @ [(gc, cc)]) ?s0 =
      (gd, cd[cube_offset a cc := gd ! grid_offset a gc], n + 1)"
    if "run_visits dcRefine a pre ?s0 = (gd, cd, n)" for gd cd n
    using that by (simp add: run_visits_append run_visits_Cons run_visits_Nil visit_dcRefine)
  moreover have "run_visits dcReplace a (pre @ [(gc, cc)]) ?s0 =
      (gd[grid_offset a gc := cd ! cube_offset a cc], cd, n + 1)"
    if "run_visits dcReplace a pre ?s0 = (gd, cd, n)" for gd cd n
    using that by (simp add: run_visits_append run_visits_Cons run_visits_Nil visit_dcReplace)
  ultimately show ?thesis using refine replace by blast
qed

theorem cube_rule_directions_witness:
  "cube_visits pair_cube 1 = [((0, 0, 0), (0, 0, 0))] @ ((1, 0, 0), (1, 0, 0)) # [] \<and>
   Py_DataCubeRefine pair_cube 1 =
     (Inr 2, pair_cube\<lparr>c_data := \<lparr>dimensions = [2, 1, 1], data = [7, 8]\<rparr>\<rparr>) \<and>
   run_visits dcRefine pair_cube [((0, 0, 0), (0, 0, 0))] (cube_start pair_cube) = ([7, 8], [7, 10], 1) \<and>
   run_visits dcRefine pair_cube ([((0, 0, 0), (0, 0, 0))] @ [((1, 0, 0), (1, 0, 0))]) (cube_start pair_cube) =
     ([7, 8], [7, 10][cube_offset pair_cube (1, 0, 0) := [7, 8] ! grid_offset pair_cube (1, 0, 0)], 1 + 1) \<and>
   Py_DataCubeReplace pair_cube 1 =
     (Inr 2, pair_cube\<lparr>g_data := \<lparr>dimensions = [2, 1, 1], data = [9, 10]\<rparr>\<rparr>) \<and>
   run_visits dcReplace pair_cube [((0, 0, 0), (0, 0, 0))] (cube_start pair_cube) = ([9, 8], [9, 10], 1) \<and>
   run_visits dcReplace pair_cube ([((0, 0, 0), (0, 0, 0))] @ [((1, 0, 0), (1, 0, 0))]) (cube_start pair_cube) =
     ([9, 8][grid_offset pair_cube (1, 0, 0) := [9, 10] ! cube_offset pair_cube (1, 0, 0)], [9, 10], 1 + 1)"
proof -
  have v: "cube_visits pair_cube 1 = [((0, 0, 0), (0, 0, 0))] @ ((1, 0, 0), (1, 0, 0)) # []"
    by (simp add: pair_cube_visits)
  have r1: "run_visits dcRefine pair_cube [((0, 0, 0), (0, 0, 0))] (cube_start pair_cube) = ([7, 8], [7, 10], 1)"
    by code_simp
  have r2: "run_visits dcReplace pair_cube [((0, 0, 0), (0, 0, 0))] (cube_start pair_cube) = ([9, 8], [9, 10], 1)"
    by code_simp
  note t = cube_rule_directions[OF v]
  from t r1 have "run_visits dcRefine pair_cube ([((0, 0, 0), (0, 0, 0))] @ [((1, 0, 0), (1, 0, 0))]) (cube_start pair_cube) =
     ([7, 8], [7, 10][cube_offset pair_cube (1, 0, 0) := [7, 8] ! grid_offset pair_cube (1, 0, 0)], 1 + 1)"
    by blast
  moreover from t r2 have "run_visits dcReplace pair_cube ([((0, 0, 0), (0, 0, 0))] @ [((1, 0, 0), (1, 0, 0))]) (cube_start pair_cube) =
     ([9, 8][grid_offset pair_cube (1, 0, 0) := [9, 10] ! cube_offset pair_cube (1, 0, 0)], [9, 10], 1 + 1)"
    by blast
  ultimately show ?thesis using v r1 r2 pair_cube_refine pair_cube_replace by simp
qed

subsection \<open>Replace, then refine, on coincident grids\<close>

text \<open>
  Claim C7, as stated, fails where the cell geometry is rounded.  The grids of
  \<open>tenth_cube\<close> are coincident, with left edge 0.2, cell size 0.1 and two cells along
  x.  For grid cell 0 the code computes \<open>(0.2 + 0.1 * 1 - 0.2) / 0.1\<close> as
  \<open>1.0000000000000002\<close>, so the cell covers the cube cells 0 and 1.
  \<^verbatim>\<open>DataCubeReplace\<close> then leaves the value of cube cell 1 in grid cell 0, and
  \<^verbatim>\<open>DataCubeRefine\<close> writes it to cube cell 0: the cube data \<open>[9, 10]\<close> ends as
  \<open>[10, 10]\<close>.
\<close>

theorem cube_round_trip_counterexample:
  "coincident tenth_cube \<and>
   length (data (g_data tenth_cube)) = PyArray_SIZE (g_data tenth_cube) \<and>
   length (data (c_data tenth_cube)) = PyArray_SIZE (c_data tenth_cube) \<and>
   Py_DataCubeReplace tenth_cube 1 = (Inr 3, tenth_cube_replaced) \<and>
   Py_DataCubeRefine tenth_cube_replaced 1 = (Inr 3, tenth_cube_refined) \<and>
   data (c_data tenth_cube) = [9, 10] \<and> data (c_data tenth_cube_refined) = [10, 10]"
  using tenth_cube_coincident tenth_cube_replace tenth_cube_refine
  by (simp add: tenth_cube_def tenth_cube_replaced_def tenth_cube_refined_def PyArray_SIZE_def)

text \<open>
  Claim C7, amended.  If the source grid and the cube are coincident, the geometry of
  the grid is computed without rounding error, and the two data buffers hold as many
  values as their shapes say, then a call of \<^verbatim>\<open>DataCubeReplace\<close> followed by a call
  of \<^verbatim>\<open>DataCubeRefine\<close> on the resulting buffers, with the same flag, leaves the
  cube data equal to what it was before the two calls: each grid cell that is reached
  covers exactly the cube cell of the same indices.
\<close>

theorem cube_round_trip:
  assumes "coincident a" and "exact_geometry a"
    and "length (data (g_data a)) = PyArray_SIZE (g_data a)"
    and "length (data (c_data a)) = PyArray_SIZE (c_data a)"
    and "Py_DataCubeReplace a ll = (Inr t1, a1)"
    and "Py_DataCubeRefine a1 ll = (Inr t2, a2)"
  shows "c_data a2 = c_data a"
proof -
  let ?V = "cube_visits a ll"
  let ?gd = "data (g_data a)" and ?cd = "data (c_data a)"
  have len: "length ?gd = length ?cd"
    using assms(1,3,4) by (simp add: coincident_def PyArray_SIZE_def)
  have off: "\<forall>(gc, cc) \<in> set ?V. cube_offset a cc = grid_offset a gc"
    using coincident_visits(2)[OF assms(1,2)] by auto
  from assms(5) have "DataCubeGeneric dcReplace a ll = (Inr t1, a1)"
    by (simp add: Py_DataCubeReplace_def)
  note r1 = DataCubeGeneric_Inr(1)[OF this, unfolded cube_start_def]
  from replace_pass[OF off, of ?gd ?cd 0] obtain gd1 n1 where
    p1: "run_visits dcReplace a ?V (?gd, ?cd, 0) = (gd1, ?cd, n1)" "length gd1 = length ?gd"
      "\<forall>(gc, cc) \<in> set ?V. grid_offset a gc < length ?gd \<longrightarrow> gd1 ! grid_offset a gc = ?cd ! grid_offset a gc"
    by auto
  have a1: "a1 = with_buffers a (gd1, ?cd, n1)" using r1 p1(1) by simp
  from assms(6) have "DataCubeGeneric dcRefine a1 ll = (Inr t2, a2)"
    by (simp add: Py_DataCubeRefine_def)
  note r2 = DataCubeGeneric_Inr(1)[OF this, unfolded cube_start_def]
  have "\<forall>(gc, cc) \<in> set ?V. cube_offset a cc < length ?cd \<longrightarrow> gd1 ! grid_offset a gc = ?cd ! cube_offset a cc"
  proof (clarify)
    fix gc cc assume v: "(gc, cc) \<in> set ?V" and b: "cube_offset a cc < length ?cd"
    from off v have e: "cube_offset a cc = grid_offset a gc" by auto
    with b len have "grid_offset a gc < length ?gd" by simp
    with p1(3) v have "gd1 ! grid_offset a gc = ?cd ! grid_offset a gc" by auto
    then show "gd1 ! grid_offset a gc = ?cd ! cube_offset a cc" by (simp add: e)
  qed
  from refine_pass[OF this, of 0]
  have "run_visits dcRefine a ?V (gd1, ?cd, 0) = (gd1, ?cd, int (length ?V))" by simp
  then have "a2 = with_buffers a1 (gd1, ?cd, int (length ?V))"
    using r2 by (simp add: a1 with_buffers_visits with_buffers_run with_buffers_simps)
  then show ?thesis by (simp add: a1 with_buffers_def)
qed

theorem cube_round_trip_witness:
  "coincident pair_cube \<and> exact_geometry pair_cube \<and>
   length (data (g_data pair_cube)) = PyArray_SIZE (g_data pair_cube) \<and>
   length (data (c_data pair_cube)) = PyArray_SIZE (c_data pair_cube) \<and>
   Py_DataCubeReplace pair_cube 0 = (Inr 1, pair_cube_replaced) \<and>
   Py_DataCubeRefine pair_cube_replaced 0 = (Inr 1, pair_cube_replaced) \<and>
   c_data pair_cube_replaced = c_data pair_cube \<and> data (c_data pair_cube) = [9, 10]"
proof -
  have g: "length (data (g_data pair_cube)) = PyArray_SIZE (g_data pair_cube)"
    and c: "length (data (c_data pair_cube)) = PyArray_SIZE (c_data pair_cube)"
    by (simp_all add: pair_cube_def PyArray_SIZE_def)
  from cube_round_trip[OF pair_cube_coincident pair_cube_exact g c
      pair_cube_replace_leaf pair_cube_refine_leaf]
  show ?thesis
    using pair_cube_coincident pair_cube_exact g c pair_cube_replace_leaf pair_cube_refine_leaf
    by (simp add: pair_cube_def)
qed

section \<open>Properties of Interpolate\<close>

lemma log10_100: "log 10 100 = 2"
proof -
  have "log 10 (10 ^ 2) = 2" by (subst log_pow_cancel) simp_all
  then show ?thesis by simp
qed

lemma log10_1000: "log 10 1000 = 3"
proof -
  have "log 10 (10 ^ 3) = 3" by (subst log_pow_cancel) simp_all
  then show ?thesis by simp
qed

lemma decade_call:
  "Py_Interpolate decade_table = (Inr (), decade_table\<lparr>outputvals := \<lparr>dimensions = [1, 1], data = [50]\<rparr>\<rparr>)"
  by (simp add: Py_Interpolate_def Interpolate_def decade_table_def log10_100 axis_index_def c_trunc_def
      index_defined_def INT_MIN_def INT_MAX_def offset1_def offset2_def offset2i_def in_buffer_def Let_def)

lemma offset2_inj: "offset2 a i j = offset2 a i j' \<longleftrightarrow> j = j'"
  by (simp add: offset2_def)

lemma offset2_rows:
  assumes "j < dimensions a ! 1" "j' < dimensions a ! 1" "offset2 a i j = offset2 a i' j'"
  shows "i = i'" "j = j'"
proof -
  let ?d = "dimensions a ! 1"
  from assms(3) have e: "i * ?d + j = i' * ?d + j'" by (simp add: offset2_def)
  then have "(i * ?d + j) div ?d = (i' * ?d + j') div ?d" by simp
  with assms(1,2) show "i = i'" by simp
  with e show "j = j'" by simp
qed

lemma column_loop_Cons_Inr:
  assumes "column_loop a dn ai d t1 tdef (c # cs) out = Inr out'"
  shows "offset2 (outputvals a) dn c < length out"
    and "column_loop a dn ai d t1 tdef cs
           (out[offset2 (outputvals a) dn c := cell_value a ai d t1 tdef c]) = Inr out'"
  using assms by (simp_all add: Let_def cell_value_def split: if_splits)

lemma column_loop_Inr:
  assumes "column_loop a dn ai d t1 tdef cs out = Inr out'" and "distinct cs"
  shows "length out' = length out \<and>
    (\<forall>column \<in> set cs. out' ! offset2 (outputvals a) dn column = cell_value a ai d t1 tdef column) \<and>
    (\<forall>off. off \<notin> offset2 (outputvals a) dn ` set cs \<longrightarrow> out' ! off = out ! off)"
  using assms
proof (induction cs arbitrary: out)
  case Nil
  then show ?case by simp
next
  case (Cons c cs)
  let ?dest = "offset2 (outputvals a) dn c"
  let ?out1 = "out[?dest := cell_value a ai d t1 tdef c]"
  note b = column_loop_Cons_Inr(1)[OF Cons.prems(1)] and r = column_loop_Cons_Inr(2)[OF Cons.prems(1)]
  from Cons.prems(2) have d: "distinct cs" and n: "c \<notin> set cs" by simp_all
  note ih = Cons.IH[OF r d]
  have "?dest \<notin> offset2 (outputvals a) dn ` set cs" using n by (auto simp: offset2_inj)
  with ih have "out' ! ?dest = ?out1 ! ?dest" by blast
  with b have here: "out' ! ?dest = cell_value a ai d t1 tdef c" by simp
  have "out' ! off = out ! off" if "off \<notin> offset2 (outputvals a) dn ` set (c # cs)" for off
  proof -
    from that have "off \<noteq> ?dest" "off \<notin> offset2 (outputvals a) dn ` set cs" by auto
    with ih show ?thesis by simp
  qed
  with ih here show ?case by simp
qed

lemma desired_loop_Cons_Inr:
  assumes "desired_loop a m l0 dl p (dn # ds) out = Inr out'"
  shows "\<exists>out1.
     index_defined (c_trunc ((log 10 (data (desired a) ! offset1 (desired a) dn) - l0) / dl)) \<and>
     column_loop a dn (axis_index m l0 dl (log 10 (data (desired a) ! offset1 (desired a) dn)))
       (log 10 (data (desired a) ! offset1 (desired a) dn))
       (l0 + real_of_int (axis_index m l0 dl (log 10 (data (desired a) ! offset1 (desired a) dn)) - 1) * dl)
       dl [0..<p] out = Inr out1 \<and>
     desired_loop a m l0 dl p ds out1 = Inr out'"
proof -
  let ?ai = "axis_index m l0 dl (log 10 (data (desired a) ! offset1 (desired a) dn))"
  have tdef: "real_of_int ?ai * dl - (real_of_int ?ai - 1) * dl = dl"
    by (simp add: algebra_simps)
  from assms show ?thesis
    by (simp add: Let_def tdef split: if_splits sum.splits)
qed

lemma desired_loop_Inr:
  assumes "desired_loop a m l0 dl p ds out = Inr out'" and "distinct ds"
    and "p \<le> dimensions (outputvals a) ! 1"
  shows "length out' = length out \<and>
    (\<forall>dn \<in> set ds. \<forall>column < p. out' ! offset2 (outputvals a) dn column = row_value a m l0 dl dn column) \<and>
    (\<forall>off. (\<forall>dn \<in> set ds. \<forall>column < p. off \<noteq> offset2 (outputvals a) dn column) \<longrightarrow> out' ! off = out ! off)"
  using assms(1,2)
proof (induction ds arbitrary: out)
  case Nil
  then show ?case by simp
next
  case (Cons dn ds)
  let ?d = "log 10 (data (desired a) ! offset1 (desired a) dn)"
  let ?ai = "axis_index m l0 dl ?d"
  let ?t1 = "l0 + real_of_int (?ai - 1) * dl"
  from desired_loop_Cons_Inr[OF Cons.prems(1)] obtain out1 where
    c: "column_loop a dn ?ai ?d ?t1 dl [0..<p] out = Inr out1"
    and r: "desired_loop a m l0 dl p ds out1 = Inr out'" by blast
  from Cons.prems(2) have d: "distinct ds" and n: "dn \<notin> set ds" by simp_all
  note ih = Cons.IH[OF r d]
  have cl: "length out1 = length out"
    "\<forall>column \<in> set [0..<p]. out1 ! offset2 (outputvals a) dn column = cell_value a ?ai ?d ?t1 dl column"
    "\<forall>off. off \<notin> offset2 (outputvals a) dn ` set [0..<p] \<longrightarrow> out1 ! off = out ! off"
    using column_loop_Inr[OF c] by simp_all
  have row: "out' ! offset2 (outputvals a) dn column = row_value a m l0 dl dn column" if "column < p" for column
  proof -
    have "\<forall>dn' \<in> set ds. \<forall>column' < p. offset2 (outputvals a) dn column \<noteq> offset2 (outputvals a) dn' column'"
    proof (intro ballI allI impI notI)
      fix dn' column' assume "dn' \<in> set ds" "column' < p"
        "offset2 (outputvals a) dn column = offset2 (outputvals a) dn' column'"
      with offset2_rows(1)[of column "outputvals a" column' dn dn'] that assms(3) n
      show False by auto
    qed
    with ih have "out' ! offset2 (outputvals a) dn column = out1 ! offset2 (outputvals a) dn column" by blast
    also have "\<dots> = cell_value a ?ai ?d ?t1 dl column" using cl(2) that by simp
    finally show ?thesis by (simp add: row_value_def Let_def)
  qed
  have frame: "out' ! off = out ! off"
    if "\<forall>dn' \<in> set (dn # ds). \<forall>column < p. off \<noteq> offset2 (outputvals a) dn' column" for off
  proof -
    from that have "\<forall>dn' \<in> set ds. \<forall>column < p. off \<noteq> offset2 (outputvals a) dn' column"
      and "off \<notin> offset2 (outputvals a) dn ` set [0..<p]" by auto
    with ih cl(3) show ?thesis by simp
  qed
  from ih cl(1) row frame show ?case by simp
qed

lemma desired_loop_defined:
  assumes "desired_loop a m l0 dl p ds out = Inr out'" and "dn \<in> set ds"
  shows "index_defined (c_trunc ((log 10 (data (desired a) ! offset1 (desired a) dn) - l0) / dl))"
  using assms
proof (induction ds arbitrary: out)
  case Nil
  then show ?case by simp
next
  case (Cons d ds)
  from desired_loop_Cons_Inr[OF Cons.prems(1)] obtain out1 where
    h: "index_defined (c_trunc ((log 10 (data (desired a) ! offset1 (desired a) d) - l0) / dl))"
    and r: "desired_loop a m l0 dl p ds out1 = Inr out'" by blast
  show ?case
  proof (cases "dn = d")
    case True
    with h show ?thesis by simp
  next
    case False
    with Cons.prems(2) have "dn \<in> set ds" by simp
    from Cons.IH[OF r this] show ?thesis .
  qed
qed

lemma Py_Interpolate_defined:
  assumes "Py_Interpolate a = (Inr u, a')" and "dn < dimensions (desired a) ! 0"
  shows "index_defined (c_trunc
    ((log 10 (data (desired a) ! offset1 (desired a) dn) - log 10 (data (axis a) ! 0)) /
     ((log 10 (data (axis a) ! (dimensions (axis a) ! 0 - 1)) - log 10 (data (axis a) ! 0)) /
      real (dimensions (axis a) ! 0 - 1))))"
proof -
  let ?m = "dimensions (axis a) ! 0" and ?p = "dimensions (columns a) ! 0"
  from assms(1) obtain out where k: "Interpolate a ?m ?p = Inr out"
    unfolding Py_Interpolate_def by (auto split: if_splits sum.splits prod.splits)
  let ?l0 = "log 10 (data (axis a) ! 0)"
  let ?dl = "(log 10 (data (axis a) ! (?m - 1)) - ?l0) / real (?m - 1)"
  from k have l: "desired_loop a ?m ?l0 ?dl ?p [0..<dimensions (desired a) ! 0] (data (outputvals a)) = Inr out"
    unfolding Interpolate_def by (auto simp: Let_def split: if_splits)
  from assms(2) have "dn \<in> set [0..<dimensions (desired a) ! 0]" by simp
  from desired_loop_defined[OF l this] show ?thesis .
qed

lemma Py_Interpolate_Inr:
  assumes "Py_Interpolate a = (Inr u, a')"
  shows "a' = a\<lparr>outputvals := (outputvals a)\<lparr>data := data (outputvals a')\<rparr>\<rparr>"
    and "length (data (outputvals a')) = length (data (outputvals a))"
    and "2 \<le> dimensions (axis a) ! 0"
    and "0 < data (axis a) ! 0" and "0 < data (axis a) ! (dimensions (axis a) ! 0 - 1)"
    and "dimensions (columns a) ! 0 = dimensions (outputvals a) ! 1"
    and "\<forall>dn < dimensions (desired a) ! 0. \<forall>column < dimensions (columns a) ! 0.
           data (outputvals a') ! offset2 (outputvals a) dn column = query_value a dn column"
proof -
  let ?m = "dimensions (axis a) ! 0" and ?p = "dimensions (columns a) ! 0"
  from assms obtain out where k: "Interpolate a ?m ?p = Inr out"
    and a': "a' = a\<lparr>outputvals := (outputvals a)\<lparr>data := out\<rparr>\<rparr>"
    and p: "?p = dimensions (outputvals a) ! 1"
    unfolding Py_Interpolate_def by (auto split: if_splits sum.splits prod.splits)
  let ?l0 = "log 10 (data (axis a) ! 0)"
  let ?dl = "(log 10 (data (axis a) ! (?m - 1)) - ?l0) / real (?m - 1)"
  from k have m: "2 \<le> ?m" and pos: "0 < data (axis a) ! 0" "0 < data (axis a) ! (?m - 1)"
    and l: "desired_loop a ?m ?l0 ?dl ?p [0..<dimensions (desired a) ! 0] (data (outputvals a)) = Inr out"
    unfolding Interpolate_def by (auto simp: Let_def split: if_splits)
  have pp: "?p \<le> dimensions (outputvals a) ! 1" using p by simp
  note r = desired_loop_Inr[OF l _ pp, simplified]
  show "a' = a\<lparr>outputvals := (outputvals a)\<lparr>data := data (outputvals a')\<rparr>\<rparr>" using a' by simp
  show "length (data (outputvals a')) = length (data (outputvals a))" using r a' by simp
  show "2 \<le> ?m" by (rule m)
  show "0 < data (axis a) ! 0" "0 < data (axis a) ! (?m - 1)" by (rule pos)+
  show "?p = dimensions (outputvals a) ! 1" by (rule p)
  show "\<forall>dn < dimensions (desired a) ! 0. \<forall>column < ?p.
           data (outputvals a') ! offset2 (outputvals a) dn column = query_value a dn column"
    using r a' by (simp add: query_value_def row_value_def Let_def)
qed

lemma c_trunc_of_nat: "c_trunc (real n) = int n"
  by (simp add: c_trunc_def)

lemma decade_above_call:
  "Py_Interpolate decade_table_above =
     (Inr (), decade_table_above\<lparr>outputvals := \<lparr>dimensions = [1, 1], data = [950]\<rparr>\<rparr>)"
  by (simp add: Py_Interpolate_def Interpolate_def decade_table_above_def decade_table_def
      log10_100 log10_1000 axis_index_def c_trunc_def index_defined_def INT_MIN_def INT_MAX_def
      offset1_def offset2_def offset2i_def in_buffer_def Let_def)

subsection \<open>Exactness at the table nodes\<close>

text \<open>
  Claim C6.  Let the axis be strictly positive and log-uniformly spaced, with a spacing
  \<open>h\<close> other than 0 between the base-10 logarithms of neighbouring points, and let a
  call complete (which needs at least two axis points).  Then a query equal to the axis
  point \<open>i\<close>, for \<open>i\<close> in \<open>[0, m - 1)\<close>, gets in every requested column exactly the
  table entry of row \<open>i\<close> and that column.  Logarithms and arithmetic are exact here.
  For the axis \<open>[1, 10, 100]\<close>, the table \<open>[[5], [50], [500]]\<close>, the query \<open>[10]\<close>
  and the column \<open>[0]\<close>, the result is \<open>[[50]]\<close>.
\<close>

theorem interpolate_exact_at_nodes:
  assumes "Py_Interpolate a = (Inr u, a')"
    and "m = dimensions (axis a) ! 0"
    and "\<forall>i < m. 0 < data (axis a) ! i"
    and "\<forall>i < m. log 10 (data (axis a) ! i) = log 10 (data (axis a) ! 0) + real i * h"
    and "h \<noteq> 0"
    and "dn < dimensions (desired a) ! 0"
    and "data (desired a) ! offset1 (desired a) dn = data (axis a) ! i"
    and "i < m - 1"
    and "column < dimensions (columns a) ! 0"
  shows "data (outputvals a') ! offset2 (outputvals a) dn column =
         data (table a) ! nat (offset2i (table a) (int i) (sint (data (columns a) ! column)))"
proof -
  note r = Py_Interpolate_Inr[OF assms(1)]
  let ?l0 = "log 10 (data (axis a) ! 0)"
  from r(3) assms(2) have m: "2 \<le> m" by simp
  have "m - 1 < m" using m by simp
  with assms(4) have "log 10 (data (axis a) ! (m - 1)) = ?l0 + real (m - 1) * h"
    by blast
  then have dl: "(log 10 (data (axis a) ! (m - 1)) - ?l0) / real (m - 1) = h"
    using m by simp
  have "i < m" using assms(8) by simp
  with assms(4) have "log 10 (data (axis a) ! i) = ?l0 + real i * h" by blast
  then have d: "log 10 (data (desired a) ! offset1 (desired a) dn) = ?l0 + real i * h"
    by (simp only: assms(7))
  have q: "(?l0 + real i * h - ?l0) / h = real i" using assms(5) by simp
  have ai: "axis_index m ?l0 h (?l0 + real i * h) = int i + 1"
    using assms(8) unfolding axis_index_def q c_trunc_of_nat by simp
  have "query_value a dn column =
      data (table a) ! nat (offset2i (table a) (int i) (sint (data (columns a) ! column)))"
    unfolding query_value_def Let_def assms(2)[symmetric] dl d ai
    by (simp add: cell_value_def)
  with r(7) assms(6,9) show ?thesis by simp
qed

theorem interpolate_exact_at_nodes_witness:
  "Py_Interpolate decade_table =
     (Inr (), decade_table\<lparr>outputvals := \<lparr>dimensions = [1, 1], data = [50]\<rparr>\<rparr>) \<and>
   data (axis decade_table) = [1, 10, 100] \<and> dimensions (table decade_table) = [3, 1] \<and>
   data (table decade_table) = [5, 50, 500] \<and> data (desired decade_table) = [10] \<and>
   data (columns decade_table) = [0] \<and>
   log 10 (data (axis decade_table) ! 0) = log 10 (data (axis decade_table) ! 0) + real 0 * 1 \<and>
   log 10 (data (axis decade_table) ! 1) = log 10 (data (axis decade_table) ! 0) + real 1 * 1 \<and>
   log 10 (data (axis decade_table) ! 2) = log 10 (data (axis decade_table) ! 0) + real 2 * 1 \<and>
   data (table decade_table) ! nat (offset2i (table decade_table) 1 0) = 50"
proof -
  have m: "(3 :: nat) = dimensions (axis decade_table) ! 0"
    and pos: "\<forall>i < 3. 0 < data (axis decade_table) ! i"
    and uni: "\<forall>i < 3. log 10 (data (axis decade_table) ! i) = log 10 (data (axis decade_table) ! 0) + real i * 1"
    and h: "(1 :: real) \<noteq> 0"
    and dn: "0 < dimensions (desired decade_table) ! 0"
    and q: "data (desired decade_table) ! offset1 (desired decade_table) 0 = data (axis decade_table) ! 1"
    and i: "1 < (3 :: nat) - 1"
    and col: "0 < dimensions (columns decade_table) ! 0"
    by (simp_all add: decade_table_def offset1_def log10_100 less_Suc_eq numeral_3_eq_3)
  from interpolate_exact_at_nodes[OF decade_call m pos uni h dn q i col]
  have "data (table decade_table) ! nat (offset2i (table decade_table) 1 0) = 50"
    by (simp add: decade_table_def offset2_def)
  then show ?thesis
    using decade_call by (simp add: decade_table_def log10_100)
qed

subsection \<open>Queries above the last axis point\<close>

lemma interpolate_extrapolates_above:
  assumes "Py_Interpolate a = (Inr u, a')"
    and "m = dimensions (axis a) ! 0"
    and "data (axis a) ! 0 < data (axis a) ! (m - 1)"
    and "dn < dimensions (desired a) ! 0"
    and "log 10 (data (axis a) ! (m - 1)) < log 10 (data (desired a) ! offset1 (desired a) dn)"
    and "column < dimensions (columns a) ! 0"
    and "logtem0 = log 10 (data (axis a) ! 0)"
    and "dlogtem = (log 10 (data (axis a) ! (m - 1)) - logtem0) / real (m - 1)"
    and "log_d = log 10 (data (desired a) ! offset1 (desired a) dn)"
    and "t_lower = logtem0 + real (m - 2) * dlogtem"
    and "t_upper = logtem0 + real (m - 1) * dlogtem"
    and "ki = data (table a) ! nat (offset2i (table a) (int m - 2) (sint (data (columns a) ! column)))"
    and "kip = data (table a) ! nat (offset2i (table a) (int m - 1) (sint (data (columns a) ! column)))"
  shows "index_defined (c_trunc ((log_d - logtem0) / dlogtem)) \<and>
         axis_index m logtem0 dlogtem log_d = int m - 1 \<and>
         1 < (log_d - t_lower) / (t_upper - t_lower) \<and>
         data (outputvals a') ! offset2 (outputvals a) dn column =
           ki + (log_d - t_lower) / (t_upper - t_lower) * (kip - ki) \<and>
         (ki < kip \<longrightarrow> kip < data (outputvals a') ! offset2 (outputvals a) dn column) \<and>
         (kip < ki \<longrightarrow> data (outputvals a') ! offset2 (outputvals a) dn column < kip)"
proof -
  note r = Py_Interpolate_Inr[OF assms(1)]
  from r(3) assms(2) have m: "2 \<le> m" by simp
  from r(4) assms(3) have "log 10 (data (axis a) ! 0) < log 10 (data (axis a) ! (m - 1))"
    by simp
  then have dl: "0 < dlogtem" using m by (simp add: assms(7,8))
  have l9: "log 10 (data (axis a) ! (m - 1)) = logtem0 + real (m - 1) * dlogtem"
    using m by (simp add: assms(8))
  have gap: "t_upper - t_lower = dlogtem"
    using m by (simp add: assms(10,11) algebra_simps of_nat_diff)
  have above: "t_upper < log_d" using assms(5) l9 unfolding assms(9,11) by linarith
  then have "real (m - 1) * dlogtem < log_d - logtem0" by (simp add: assms(11))
  then have "real (m - 1) < (log_d - logtem0) / dlogtem" using dl by (simp add: pos_less_divide_eq)
  then have "int (m - 1) \<le> \<lfloor>(log_d - logtem0) / dlogtem\<rfloor>" by linarith
  moreover have "0 \<le> (log_d - logtem0) / dlogtem" using \<open>real (m - 1) < _\<close> by linarith
  ultimately have "int m - 1 \<le> c_trunc ((log_d - logtem0) / dlogtem)"
    using m by (simp add: c_trunc_def)
  then have ai: "axis_index m logtem0 dlogtem log_d = int m - 1"
    by (simp add: axis_index_def)
  have frac: "1 < (log_d - t_lower) / (t_upper - t_lower)"
    using above dl gap by (simp add: pos_less_divide_eq)
  have t1: "logtem0 + real_of_int (int m - 1 - 1) * dlogtem = t_lower"
    using m by (simp add: assms(10) of_nat_diff)
  have "query_value a dn column = ki + (log_d - t_lower) * (kip - ki) / dlogtem"
    unfolding query_value_def Let_def assms(2)[symmetric] assms(7)[symmetric] assms(8)[symmetric]
      assms(9)[symmetric] ai t1
    by (simp add: cell_value_def Let_def assms(12,13))
  with r(7) assms(4,6) have out: "data (outputvals a') ! offset2 (outputvals a) dn column =
      ki + (log_d - t_lower) / (t_upper - t_lower) * (kip - ki)"
    by (simp add: gap)
  have "ki + f * (kip - ki) - kip = (f - 1) * (kip - ki)" for f :: real
    by (simp add: algebra_simps)
  then have diff: "data (outputvals a') ! offset2 (outputvals a) dn column - kip =
      ((log_d - t_lower) / (t_upper - t_lower) - 1) * (kip - ki)"
    by (simp only: out)
  have up: "kip < data (outputvals a') ! offset2 (outputvals a) dn column" if "ki < kip"
  proof -
    have "0 < ((log_d - t_lower) / (t_upper - t_lower) - 1) * (kip - ki)"
      using frac that by (intro mult_pos_pos) simp_all
    with diff show ?thesis by linarith
  qed
  have down: "data (outputvals a') ! offset2 (outputvals a) dn column < kip" if "kip < ki"
  proof -
    have "((log_d - t_lower) / (t_upper - t_lower) - 1) * (kip - ki) < 0"
      using frac that by (intro mult_pos_neg) simp_all
    with diff show ?thesis by linarith
  qed
  have "index_defined (c_trunc ((log_d - logtem0) / dlogtem))"
    using Py_Interpolate_defined[OF assms(1,4)]
    unfolding assms(2)[symmetric] assms(7)[symmetric] assms(8)[symmetric] assms(9)[symmetric] .
  with ai frac out up down show ?thesis by blast
qed

text \<open>
  Claim C10.  Let the last axis point be the largest (it lies above the first) and let
  a call complete.  For a query whose logarithm exceeds that of the last axis point the
  quotient \<^verbatim>\<open>(desired-logtem0)/dlogtem\<close> of line 614 then truncates to a number below
  \<^verbatim>\<open>INT_MAX\<close>, where its conversion to \<^verbatim>\<open>int\<close> and the sum with 1 are defined
  (a call with a query beyond that does not complete here); the bracket index is
  \<open>m - 1\<close>, so that the brackets are the rows \<open>m - 2\<close> and \<open>m - 1\<close>; the
  interpolation fraction exceeds 1; and the value written is the linear extrapolation
  through the last two rows, which lies beyond the last row's value whenever the two
  rows differ.  In the worked table the query 1000 gets 950, above every tabulated
  value.
\<close>

theorem interpolate_extrapolates:
  assumes "Py_Interpolate a = (Inr u, a')"
    and "m = dimensions (axis a) ! 0"
    and "data (axis a) ! 0 < data (axis a) ! (m - 1)"
    and "dn < dimensions (desired a) ! 0"
    and "log 10 (data (axis a) ! (m - 1)) < log 10 (data (desired a) ! offset1 (desired a) dn)"
    and "column < dimensions (columns a) ! 0"
  shows "let logtem0 = log 10 (data (axis a) ! 0);
             dlogtem = (log 10 (data (axis a) ! (m - 1)) - logtem0) / real (m - 1);
             log_d = log 10 (data (desired a) ! offset1 (desired a) dn);
             t_lower = logtem0 + real (m - 2) * dlogtem;
             t_upper = logtem0 + real (m - 1) * dlogtem;
             ki = data (table a) ! nat (offset2i (table a) (int m - 2) (sint (data (columns a) ! column)));
             kip = data (table a) ! nat (offset2i (table a) (int m - 1) (sint (data (columns a) ! column)));
             written = data (outputvals a') ! offset2 (outputvals a) dn column
         in index_defined (c_trunc ((log_d - logtem0) / dlogtem)) \<and>
            axis_index m logtem0 dlogtem log_d = int m - 1 \<and>
            1 < (log_d - t_lower) / (t_upper - t_lower) \<and>
            written = ki + (log_d - t_lower) / (t_upper - t_lower) * (kip - ki) \<and>
            (ki < kip \<longrightarrow> kip < written) \<and> (kip < ki \<longrightarrow> written < kip)"
  unfolding Let_def
  by (rule interpolate_extrapolates_above[OF assms refl refl refl refl refl refl refl])

theorem interpolate_extrapolates_witness:
  "Py_Interpolate decade_table_above =
     (Inr (), decade_table_above\<lparr>outputvals := \<lparr>dimensions = [1, 1], data = [950]\<rparr>\<rparr>) \<and>
   data (axis decade_table_above) = [1, 10, 100] \<and> data (table decade_table_above) = [5, 50, 500] \<and>
   data (desired decade_table_above) = [1000] \<and>
   log 10 100 < log 10 (1000 :: real) \<and>
   index_defined (c_trunc ((3 - 0) / 1)) \<and> axis_index 3 0 1 3 = 2 \<and> (1 :: real) < (3 - 1) / (2 - 1) \<and>
   (950 :: real) = 50 + (3 - 1) / (2 - 1) * (500 - 50) \<and> (500 :: real) < 950"
proof -
  have m: "(3 :: nat) = dimensions (axis decade_table_above) ! 0"
    and asc: "data (axis decade_table_above) ! 0 < data (axis decade_table_above) ! (3 - 1)"
    and dn: "0 < dimensions (desired decade_table_above) ! 0"
    and q: "log 10 (data (axis decade_table_above) ! (3 - 1))
            < log 10 (data (desired decade_table_above) ! offset1 (desired decade_table_above) 0)"
    and col: "0 < dimensions (columns decade_table_above) ! 0"
    by (simp_all add: decade_table_above_def decade_table_def offset1_def log10_100 log10_1000)
  from interpolate_extrapolates[OF decade_above_call m asc dn q col]
  have "index_defined (c_trunc ((3 - 0) / 1)) \<and> axis_index 3 0 1 3 = 2"
    by (simp add: Let_def decade_table_above_def decade_table_def offset1_def log10_100 log10_1000)
  then show ?thesis
    using decade_above_call
    by (simp add: decade_table_above_def decade_table_def log10_100 log10_1000)
qed

section \<open>Properties of Bin2DProfile\<close>

text \<open>
  Claim C8 does not hold of the code.  For the two samples of the worked histogram the
  claim has the call add 1.0 to \<open>weight_sum\<close> and to \<open>weighted_value_sum\<close> and set
  \<open>touched\<close> to 1.0 in each of the rows 0 and 1.  The loop reads, for sample \<open>n\<close>,
  byte \<open>n\<close> of each sample buffer: for both samples the row byte, the column byte,
  the weight byte and the value byte are all 0, so the call adds 0 twice to row 0 of the
  two sums, sets \<open>touched\<close> in row 0 only, and returns 1.
\<close>

theorem bin2d_reads_bytes:
  "Py_Bin2DProfile two_samples =
     (Inr 1, two_samples\<lparr>used := \<lparr>dimensions = [2, 1], data = [1, 0]\<rparr>\<rparr>)"
  by code_simp

theorem bin2d_reads_bytes_witness:
  "fst (Py_Bin2DProfile two_samples) = Inr 1 \<and>
   data (bins_x two_samples) = [0, 1] \<and> data (bins_y two_samples) = [0, 0] \<and>
   data (wresult two_samples) = [0, 0] \<and>
   data (wresult (snd (Py_Bin2DProfile two_samples))) = [0, 0] \<and>
   data (bresult (snd (Py_Bin2DProfile two_samples))) = [0, 0] \<and>
   data (used (snd (Py_Bin2DProfile two_samples))) = [1, 0]"
  using bin2d_reads_bytes by (simp add: two_samples_def)

section \<open>Validation failures\<close>

lemma decimal_2: "decimal 2 = ''2''"
  by (simp add: decimal.simps)

lemma combine_fail_path:
  "combine_invalid g \<longrightarrow>
      Py_CombineGrids g r =
        (Inl (if \<not> combine_arrays_invalid g \<and> src_vals g = []
              then CombineGridsError ''CombineGrids: You have to pass me lists of things.''
              else IndeterminateValue), g)"
  unfolding combine_invalid_def combine_arrays_invalid_def Py_CombineGrids_def
    combine_fail_def released_def
  by (cases "src_vals g") simp_all

lemma profile_fail_path:
  "profile_invalid b \<longrightarrow>
      Py_Bin2DProfile b =
        (Inl (if \<not> profile_arrays_invalid b
              then Profile2DError
                ''Bin2DProfile: Two dimensions required for used, same shape as wresult.''
              else IndeterminateValue), b)"
proof -
  let ?c1 = "length (dimensions (bins_x b)) \<noteq> 1"
  let ?c2 = "length (dimensions (bins_y b)) \<noteq> 1 \<or> PyArray_SIZE (bins_x b) \<noteq> PyArray_SIZE (bins_y b)"
  let ?c3 = "length (dimensions (wsource b)) \<noteq> 1 \<or> PyArray_SIZE (bins_x b) \<noteq> PyArray_SIZE (wsource b)"
  let ?c4 = "length (dimensions (bsource b)) \<noteq> 1 \<or> PyArray_SIZE (bins_x b) \<noteq> PyArray_SIZE (bsource b)"
  let ?c5 = "length (dimensions (wresult b)) \<noteq> 2"
  let ?c6 = "length (dimensions (bresult b)) \<noteq> 2 \<or> PyArray_SIZE (wresult b) \<noteq> PyArray_SIZE (bresult b) \<or>
             dimensions (bresult b) ! 0 \<noteq> dimensions (wresult b) ! 0"
  let ?c7 = "length (dimensions (used b)) \<noteq> 2 \<or> PyArray_SIZE (used b) \<noteq> PyArray_SIZE (wresult b) \<or>
             dimensions (used b) ! 0 \<noteq> dimensions (wresult b) ! 0"
  let ?X = "(Inl IndeterminateValue, b) :: (error + int) \<times> bin2d_args"
  have 1: "Py_Bin2DProfile b = ?X" if "?c1"
    using that by (simp add: Py_Bin2DProfile_def released_def)
  have 2: "Py_Bin2DProfile b = ?X" if "\<not> ?c1" "?c2"
    using that by (simp add: Py_Bin2DProfile_def released_def)
  have 3: "Py_Bin2DProfile b = ?X" if "\<not> ?c1" "\<not> ?c2" "?c3"
    using that by (simp add: Py_Bin2DProfile_def released_def)
  have 4: "Py_Bin2DProfile b = ?X" if "\<not> ?c1" "\<not> ?c2" "\<not> ?c3" "?c4"
    using that by (simp add: Py_Bin2DProfile_def released_def)
  have 5: "Py_Bin2DProfile b = ?X" if "\<not> ?c1" "\<not> ?c2" "\<not> ?c3" "\<not> ?c4" "?c5"
    using that by (simp add: Py_Bin2DProfile_def released_def)
  have 6: "Py_Bin2DProfile b = ?X" if "\<not> ?c1" "\<not> ?c2" "\<not> ?c3" "\<not> ?c4" "\<not> ?c5" "?c6"
    using that by (simp add: Py_Bin2DProfile_def released_def)
  have 7: "Py_Bin2DProfile b =
      (Inl (Profile2DError ''Bin2DProfile: Two dimensions required for used, same shape as wresult.''), b)"
    if "\<not> ?c1" "\<not> ?c2" "\<not> ?c3" "\<not> ?c4" "\<not> ?c5" "\<not> ?c6" "?c7"
    using that by (simp add: Py_Bin2DProfile_def released_def)
  have early: "Py_Bin2DProfile b = ?X" if "profile_arrays_invalid b"
    using that 1 2 3 4 5 6 unfolding profile_arrays_invalid_def by blast
  have last: "Py_Bin2DProfile b =
      (Inl (Profile2DError ''Bin2DProfile: Two dimensions required for used, same shape as wresult.''), b)"
    if "\<not> profile_arrays_invalid b" "profile_invalid b"
    using that 7 unfolding profile_invalid_def profile_arrays_invalid_def by blast
  show ?thesis
    using early last by (cases "profile_arrays_invalid b") simp_all
qed

lemma cube_fail_path:
  "cube_invalid c \<longrightarrow>
      DataCubeGeneric to_call c ll =
        (Inl (if \<not> cube_arrays_invalid c
              then DataCubeError ''CombineGrids: Three dimensions required for c_data.''
              else IndeterminateValue), c)"
proof -
  let ?c1 = "length (dimensions (g_le c)) \<noteq> 1 \<or> PyArray_SIZE (g_le c) \<noteq> 3"
  let ?c2 = "length (dimensions (g_dx c)) \<noteq> 1 \<or> PyArray_SIZE (g_dx c) \<noteq> 3"
  let ?c3 = "length (dimensions (g_data c)) \<noteq> 3"
  let ?c4 = "length (dimensions (g_cm c)) \<noteq> 3"
  let ?c5 = "length (dimensions (c_le c)) \<noteq> 1 \<or> PyArray_SIZE (c_le c) \<noteq> 3"
  let ?c6 = "length (dimensions (c_re c)) \<noteq> 1 \<or> PyArray_SIZE (c_re c) \<noteq> 3"
  let ?c7 = "length (dimensions (c_dx c)) \<noteq> 1 \<or> PyArray_SIZE (c_dx c) \<noteq> 3"
  let ?c8 = "length (dimensions (c_data c)) \<noteq> 3"
  let ?X = "(Inl IndeterminateValue, c) :: (error + int) \<times> cube_args"
  have 1: "DataCubeGeneric to_call c ll = ?X" if "?c1"
    using that by (simp add: DataCubeGeneric_def released_def)
  have 2: "DataCubeGeneric to_call c ll = ?X" if "\<not> ?c1" "?c2"
    using that by (simp add: DataCubeGeneric_def released_def)
  have 3: "DataCubeGeneric to_call c ll = ?X" if "\<not> ?c1" "\<not> ?c2" "?c3"
    using that by (simp add: DataCubeGeneric_def released_def)
  have 4: "DataCubeGeneric to_call c ll = ?X" if "\<not> ?c1" "\<not> ?c2" "\<not> ?c3" "?c4"
    using that by (simp add: DataCubeGeneric_def released_def)
  have 5: "DataCubeGeneric to_call c ll = ?X" if "\<not> ?c1" "\<not> ?c2" "\<not> ?c3" "\<not> ?c4" "?c5"
    using that by (simp add: DataCubeGeneric_def released_def)
  have 6: "DataCubeGeneric to_call c ll = ?X" if "\<not> ?c1" "\<not> ?c2" "\<not> ?c3" "\<not> ?c4" "\<not> ?c5" "?c6"
    using that by (simp add: DataCubeGeneric_def released_def)
  have 7: "DataCubeGeneric to_call c ll = ?X"
    if "\<not> ?c1" "\<not> ?c2" "\<not> ?c3" "\<not> ?c4" "\<not> ?c5" "\<not> ?c6" "?c7"
    using that by (simp add: DataCubeGeneric_def released_def)
  have 8: "DataCubeGeneric to_call c ll =
      (Inl (DataCubeError ''CombineGrids: Three dimensions required for c_data.''), c)"
    if "\<not> ?c1" "\<not> ?c2" "\<not> ?c3" "\<not> ?c4" "\<not> ?c5" "\<not> ?c6" "\<not> ?c7" "?c8"
    using that by (simp add: DataCubeGeneric_def released_def)
  have early: "DataCubeGeneric to_call c ll = ?X" if "cube_arrays_invalid c"
    using that 1 2 3 4 5 6 7 unfolding cube_arrays_invalid_def three_vector_def by blast
  have last: "DataCubeGeneric to_call c ll =
      (Inl (DataCubeError ''CombineGrids: Three dimensions required for c_data.''), c)"
    if "\<not> cube_arrays_invalid c" "cube_invalid c"
    using that 8 unfolding cube_invalid_def cube_arrays_invalid_def three_vector_def by blast
  show ?thesis
    using early last by (cases "cube_arrays_invalid c") simp_all
qed

lemma interpolate_fail_path:
  "interpolate_invalid t \<longrightarrow>
      Py_Interpolate t =
        (Inl (InterpolateError
           (''Interpolate: number of columns requested must match number of columns in output buffer. ''
            @ decimal (dimensions (columns t) ! 0))), t)"
  unfolding interpolate_invalid_def Py_Interpolate_def released_def
  by simp

text \<open>
  Claim C9 does not hold of the code.  No array is written before the checks are done,
  but a failed check reports its error only if the label \<^verbatim>\<open>_fail\<close> finds every
  pointer assigned that it releases.  \<^verbatim>\<open>Py_Interpolate\<close> converts all its arguments
  before its check, and reports.  The other entry points check each array as they
  convert it, so a failure of any array but the last leaves pointers unassigned, and
  \<^verbatim>\<open>_fail\<close> reads them: of the failures the claim names, \<^verbatim>\<open>Py_CombineGrids\<close>
  reports the empty channel list only (with the channel lists of different lengths it
  reads \<^verbatim>\<open>grid_src_vals\<close>, which is not yet allocated), \<^verbatim>\<open>Py_Bin2DProfile\<close> a
  mismatch of \<open>used\<close> only, and \<^verbatim>\<open>DataCubeGeneric\<close> a \<open>c_data\<close> that is not
  three-dimensional only.  In the four worked failures, only the last call reports.
\<close>

theorem validation_fail_path:
  "(combine_invalid g \<longrightarrow>
      Py_CombineGrids g r =
        (Inl (if \<not> combine_arrays_invalid g \<and> src_vals g = []
              then CombineGridsError ''CombineGrids: You have to pass me lists of things.''
              else IndeterminateValue), g)) \<and>
   (profile_invalid b \<longrightarrow>
      Py_Bin2DProfile b =
        (Inl (if \<not> profile_arrays_invalid b
              then Profile2DError
                ''Bin2DProfile: Two dimensions required for used, same shape as wresult.''
              else IndeterminateValue), b)) \<and>
   (cube_invalid c \<longrightarrow>
      Py_DataCubeRefine c ll =
        (Inl (if \<not> cube_arrays_invalid c
              then DataCubeError ''CombineGrids: Three dimensions required for c_data.''
              else IndeterminateValue), c) \<and>
      Py_DataCubeReplace c ll =
        (Inl (if \<not> cube_arrays_invalid c
              then DataCubeError ''CombineGrids: Three dimensions required for c_data.''
              else IndeterminateValue), c)) \<and>
   (interpolate_invalid t \<longrightarrow>
      Py_Interpolate t =
        (Inl (InterpolateError
           (''Interpolate: number of columns requested must match number of columns in output buffer. ''
            @ decimal (dimensions (columns t) ! 0))), t))"
  using combine_fail_path[of g r] profile_fail_path[of b] cube_fail_path[of c dcRefine ll]
    cube_fail_path[of c dcReplace ll] interpolate_fail_path[of t]
  unfolding Py_DataCubeRefine_def Py_DataCubeReplace_def by blast

theorem validation_fail_path_witness:
  "combine_invalid fan_out_unpaired \<and>
   length (src_vals fan_out_unpaired) = 1 \<and> length (dst_vals fan_out_unpaired) = 0 \<and>
   Py_CombineGrids fan_out_unpaired 2 = (Inl IndeterminateValue, fan_out_unpaired) \<and>
   profile_invalid two_samples_short \<and>
   Py_Bin2DProfile two_samples_short = (Inl IndeterminateValue, two_samples_short) \<and>
   cube_invalid pair_cube_flat \<and>
   Py_DataCubeRefine pair_cube_flat 1 = (Inl IndeterminateValue, pair_cube_flat) \<and>
   Py_DataCubeReplace pair_cube_flat 1 = (Inl IndeterminateValue, pair_cube_flat) \<and>
   interpolate_invalid decade_table_wide \<and>
   Py_Interpolate decade_table_wide =
     (Inl (InterpolateError
        ''Interpolate: number of columns requested must match number of columns in output buffer. 2''),
      decade_table_wide)"
proof -
  have i: "combine_invalid fan_out_unpaired" "profile_invalid two_samples_short"
    "cube_invalid pair_cube_flat" "interpolate_invalid decade_table_wide"
    by (simp_all add: combine_invalid_def profile_invalid_def profile_arrays_invalid_def
        cube_invalid_def cube_arrays_invalid_def interpolate_invalid_def three_vector_def
        PyArray_SIZE_def fan_out_unpaired_def two_samples_short_def pair_cube_flat_def
        decade_table_wide_def fan_out_example_def two_samples_def pair_cube_def decade_table_def)
  have c: "\<not> (\<not> combine_arrays_invalid fan_out_unpaired \<and> src_vals fan_out_unpaired = [])"
    "profile_arrays_invalid two_samples_short" "cube_arrays_invalid pair_cube_flat"
    "dimensions (columns decade_table_wide) ! 0 = 2"
    "length (src_vals fan_out_unpaired) = 1" "length (dst_vals fan_out_unpaired) = 0"
    by (simp_all add: combine_arrays_invalid_def profile_arrays_invalid_def
        cube_arrays_invalid_def three_vector_def
        PyArray_SIZE_def fan_out_unpaired_def two_samples_short_def pair_cube_flat_def
        decade_table_wide_def fan_out_example_def two_samples_def pair_cube_def decade_table_def)
  note t = validation_fail_path[of fan_out_unpaired 2 two_samples_short pair_cube_flat 1
      decade_table_wide]
  from t i c show ?thesis by (simp add: decimal_2)
qed

end
